theory Spec2Isabelle
  imports Main "HOL-Library.Word" "HOL-Library.Sublist"
begin

unbundle bit_operations_syntax

section \<open>JavaScript strings\<close>

text \<open>
  A JavaScript string is a sequence of UTF-16 code units, and every string operation
  of \<^verbatim>\<open>shell2node.ts\<close> (\<^verbatim>\<open>trim\<close>, \<^verbatim>\<open>split\<close>, \<^verbatim>\<open>indexOf\<close>, \<^verbatim>\<open>slice\<close>,
  \<^verbatim>\<open>startsWith\<close>, \<^verbatim>\<open>includes\<close>, \<^verbatim>\<open>JSON.stringify\<close>) works on code units.
  \<open>js\<close> writes an ASCII literal of the source as such a sequence.
\<close>

type_synonym jsstring = "16 word list"

definition js :: "string \<Rightarrow> jsstring" where
  "js s = map of_char s"

text \<open>
  \<^verbatim>\<open>String.prototype.trim\<close> removes, at both ends, the code units of ECMAScript's
  WhiteSpace and LineTerminator productions.
\<close>

definition is_white :: "16 word \<Rightarrow> bool" where
  "is_white c \<longleftrightarrow>
     c = 0x09 \<or> c = 0x0A \<or> c = 0x0B \<or> c = 0x0C \<or> c = 0x0D \<or> c = 0x20 \<or> c = 0xA0 \<or>
     c = 0x1680 \<or> (0x2000 \<le> c \<and> c \<le> 0x200A) \<or> c = 0x2028 \<or> c = 0x2029 \<or>
     c = 0x202F \<or> c = 0x205F \<or> c = 0x3000 \<or> c = 0xFEFF"

definition trim :: "jsstring \<Rightarrow> jsstring" where
  "trim s = rev (dropWhile is_white (rev (dropWhile is_white s)))"

text \<open>\<^verbatim>\<open>s.split(/\r?\n/)\<close>: the separator is a line feed, or a carriage return
  directly followed by a line feed; a lone carriage return stays in its line, and the
  empty string splits into one empty piece.\<close>

definition push_unit :: "16 word \<Rightarrow> jsstring list \<Rightarrow> jsstring list" where
  "push_unit c ls = (case ls of [] \<Rightarrow> [[c]] | l # ls' \<Rightarrow> (c # l) # ls')"

fun split_lines :: "jsstring \<Rightarrow> jsstring list" where
  "split_lines [] = [[]]"
| "split_lines [c] = (if c = 0x0A then [[], []] else [[c]])"
| "split_lines (c # d # ds) =
     (if c = 0x0A then [] # split_lines (d # ds)
      else if c = 0x0D \<and> d = 0x0A then [] # split_lines ds
      else push_unit c (split_lines (d # ds)))"

text \<open>\<^verbatim>\<open>s.indexOf(x)\<close> for a single code unit: the first position, or -1.\<close>

fun indexOf :: "jsstring \<Rightarrow> 16 word \<Rightarrow> int" where
  "indexOf [] x = -1"
| "indexOf (c # cs) x =
     (if c = x then 0 else (let i = indexOf cs x in if i = -1 then -1 else i + 1))"

text \<open>\<^verbatim>\<open>s.slice(a, b)\<close> and \<^verbatim>\<open>s.slice(a)\<close>: a negative index counts from the end,
  and both are clamped to the string.\<close>

definition slice :: "jsstring \<Rightarrow> int \<Rightarrow> int \<Rightarrow> jsstring" where
  "slice s a b =
     (let n = int (length s);
          from = (if a < 0 then max (n + a) 0 else min a n);
          upto = (if b < 0 then max (n + b) 0 else min b n)
      in take (nat (upto - from)) (drop (nat from) s))"

definition slice_from :: "jsstring \<Rightarrow> int \<Rightarrow> jsstring" where
  "slice_from s a = slice s a (int (length s))"

definition startsWith :: "jsstring \<Rightarrow> jsstring \<Rightarrow> bool" where
  "startsWith s p \<longleftrightarrow> take (length p) s = p"

fun js_includes :: "jsstring \<Rightarrow> jsstring \<Rightarrow> bool" where
  "js_includes [] p \<longleftrightarrow> p = []"
| "js_includes (c # cs) p \<longleftrightarrow> startsWith (c # cs) p \<or> js_includes cs p"

text \<open>\<^verbatim>\<open>lines.join('\n')\<close>.\<close>

fun join_lines :: "jsstring list \<Rightarrow> jsstring" where
  "join_lines [] = []"
| "join_lines [l] = l"
| "join_lines (l # m # ls) = l @ 0x0A # join_lines (m # ls)"

text \<open>The lines of a text that was joined by line feeds.\<close>

fun text_lines :: "jsstring \<Rightarrow> jsstring list" where
  "text_lines [] = [[]]"
| "text_lines (c # cs) =
     (if c = 0x0A then [] # text_lines cs else push_unit c (text_lines cs))"

section \<open>JSON string literals\<close>

text \<open>
  \<^verbatim>\<open>JSON.stringify\<close> on a string is ECMAScript's QuoteJSONString: the string is read
  code point by code point; backspace, tab, line feed, form feed, carriage return, the
  double quote and the backslash get their two-character escape; every other code unit
  below 0x20 and every surrogate that is not part of a pair is written as a lower-case
  \<^verbatim>\<open>\uXXXX\<close> escape; everything else is copied.
\<close>

definition hex_digit :: "nat \<Rightarrow> 16 word" where
  "hex_digit n = (if n < 10 then 0x30 + of_nat n else 0x61 + of_nat (n - 10))"

definition unicode_escape :: "16 word \<Rightarrow> jsstring" where
  "unicode_escape c =
     (let n = unat c
      in [0x5C, 0x75, hex_digit (n div 4096 mod 16), hex_digit (n div 256 mod 16),
          hex_digit (n div 16 mod 16), hex_digit (n mod 16)])"

definition is_lead :: "16 word \<Rightarrow> bool" where
  "is_lead c \<longleftrightarrow> 0xD800 \<le> c \<and> c \<le> 0xDBFF"

definition is_trail :: "16 word \<Rightarrow> bool" where
  "is_trail c \<longleftrightarrow> 0xDC00 \<le> c \<and> c \<le> 0xDFFF"

definition quote_unit :: "16 word \<Rightarrow> jsstring" where
  "quote_unit c =
     (if c = 0x08 then [0x5C, 0x62]
      else if c = 0x09 then [0x5C, 0x74]
      else if c = 0x0A then [0x5C, 0x6E]
      else if c = 0x0C then [0x5C, 0x66]
      else if c = 0x0D then [0x5C, 0x72]
      else if c = 0x22 then [0x5C, 0x22]
      else if c = 0x5C then [0x5C, 0x5C]
      else if c < 0x20 \<or> is_lead c \<or> is_trail c then unicode_escape c
      else [c])"

fun quote_units :: "jsstring \<Rightarrow> jsstring" where
  "quote_units [] = []"
| "quote_units [c] = quote_unit c"
| "quote_units (c # d # ds) =
     (if is_lead c \<and> is_trail d then c # d # quote_units ds
      else quote_unit c @ quote_units (d # ds))"

definition JSON_stringify :: "jsstring \<Rightarrow> jsstring" where
  "JSON_stringify s = 0x22 # quote_units s @ [0x22]"

text \<open>
  Reading a string literal back, as \<^verbatim>\<open>JSON.parse\<close> and the JavaScript lexer do for
  a double-quoted literal: \<open>string_literal\<close> expects the opening quote and returns the
  value of the literal together with the text that follows its closing quote.
\<close>

definition hex_value :: "16 word \<Rightarrow> nat option" where
  "hex_value c =
     (let n = unat c
      in if 48 \<le> n \<and> n \<le> 57 then Some (n - 48)
         else if 97 \<le> n \<and> n \<le> 102 then Some (n - 87)
         else if 65 \<le> n \<and> n \<le> 70 then Some (n - 55)
         else None)"

definition simple_escape :: "16 word \<Rightarrow> 16 word option" where
  "simple_escape e =
     (if e = 0x22 then Some 0x22
      else if e = 0x5C then Some 0x5C
      else if e = 0x2F then Some 0x2F
      else if e = 0x62 then Some 0x08
      else if e = 0x66 then Some 0x0C
      else if e = 0x6E then Some 0x0A
      else if e = 0x72 then Some 0x0D
      else if e = 0x74 then Some 0x09
      else None)"

definition hex4 :: "jsstring \<Rightarrow> 16 word option" where
  "hex4 hs =
     (case map hex_value hs of
        [Some a, Some b, Some c, Some d] \<Rightarrow> Some (of_nat (((a * 16 + b) * 16 + c) * 16 + d))
      | _ \<Rightarrow> None)"

definition emit :: "16 word \<Rightarrow> (jsstring \<times> jsstring) option \<Rightarrow> (jsstring \<times> jsstring) option" where
  "emit u r = (case r of None \<Rightarrow> None | Some (s, t) \<Rightarrow> Some (u # s, t))"

fun unquote_units :: "jsstring \<Rightarrow> (jsstring \<times> jsstring) option" where
  "unquote_units [] = None"
| "unquote_units (c # cs) =
     (if c = 0x22 then Some ([], cs)
      else if c = 0x5C then
        (case cs of
           [] \<Rightarrow> None
         | e # es \<Rightarrow>
             if e = 0x75 then
               (case hex4 (take 4 es) of
                  None \<Rightarrow> None
                | Some u \<Rightarrow> emit u (unquote_units (drop 4 es)))
             else
               (case simple_escape e of
                  None \<Rightarrow> None
                | Some u \<Rightarrow> emit u (unquote_units es)))
      else if c < 0x20 then None
      else emit c (unquote_units cs))"

definition string_literal :: "jsstring \<Rightarrow> (jsstring \<times> jsstring) option" where
  "string_literal s = (case s of [] \<Rightarrow> None | c # cs \<Rightarrow> if c = 0x22 then unquote_units cs else None)"

section \<open>Log parsing and filtering\<close>

text \<open>
  The exit handler of \<^verbatim>\<open>shell2node.ts\<close> reads the log and turns it into entries:
  \<^verbatim>\<open>
  const raw = fs.readFileSync(logFile, 'utf8').trim().split(/\r?\n/).filter(Boolean);
  const entries = raw
    .map((line) => {
      const idx = line.indexOf(' ');
      if (idx === -1) return { ts: null, cmd: line };
      const ts = line.slice(0, idx);
      const cmd = line.slice(idx + 1);
      return { ts, cmd };
    })
    .filter((e) => e.cmd && !e.cmd.startsWith('shell2node'));
  \<close>
\<close>

record entry =
  ts :: "jsstring option"
  cmd :: jsstring

definition raw_lines :: "jsstring \<Rightarrow> jsstring list" where
  "raw_lines text = filter (\<lambda>l. l \<noteq> []) (split_lines (trim text))"

definition parse_line :: "jsstring \<Rightarrow> entry" where
  "parse_line line =
     (let idx = indexOf line 0x20
      in if idx = -1 then \<lparr>ts = None, cmd = line\<rparr>
         else \<lparr>ts = Some (slice line 0 idx), cmd = slice_from line (idx + 1)\<rparr>)"

definition parse_entries :: "jsstring \<Rightarrow> entry list" where
  "parse_entries text = map parse_line (raw_lines text)"

definition keep :: "entry \<Rightarrow> bool" where
  "keep e \<longleftrightarrow> cmd e \<noteq> [] \<and> \<not> startsWith (cmd e) (js ''shell2node'')"

definition entries_of :: "jsstring \<Rightarrow> entry list" where
  "entries_of text = filter keep (parse_entries text)"

text \<open>
  The specification's wording of the same parser, for comparison with the code: it
  trims trailing whitespace only.
\<close>

definition trimEnd_spec :: "jsstring \<Rightarrow> jsstring" where
  "trimEnd_spec s = rev (dropWhile is_white (rev s))"

definition parseLog_spec :: "jsstring \<Rightarrow> entry list" where
  "parseLog_spec text =
     map parse_line (filter (\<lambda>l. l \<noteq> []) (split_lines (trimEnd_spec text)))"

section \<open>The generated replay script\<close>

text \<open>
  The exit handler builds the script as an array of lines joined by line feeds:
  three comment lines, the import, the function \<^verbatim>\<open>run\<close>, and inside an async
  function one line \<^verbatim>\<open>run(${JSON.stringify(e.cmd)});\<close> for each entry.
\<close>

fun decimal :: "nat \<Rightarrow> jsstring" where
  "decimal n =
     (if n < 10 then [0x30 + of_nat n]
      else decimal (n div 10) @ [0x30 + of_nat (n mod 10)])"

declare decimal.simps [simp del]

definition run_line :: "entry \<Rightarrow> jsstring" where
  "run_line e = js ''  run('' @ JSON_stringify (cmd e) @ js '');''"

definition script_header :: "nat \<Rightarrow> jsstring \<Rightarrow> jsstring list" where
  "script_header n generated_at =
     [js ''// Generated by shell2node (MLP)'',
      js ''// Captured commands: '' @ decimal n,
      js ''// Generated at: '' @ generated_at,
      [],
      js ''import { spawnSync } from 'child_process' '',
      [],
      js ''function run(cmd) {'',
      js ''  console.log('> ' + cmd);'',
      js ''  const r = spawnSync('sh', ['-c', cmd], { stdio: 'inherit' });'',
      js ''  if (r.error) {'',
      js ''    console.error('Failed to run command:', r.error);'',
      js ''    process.exit(r.status || 1);'',
      js ''  }'',
      js ''  if (r.status && r.status !== 0) {'',
      js ''    console.error('Command exited with code', r.status);'',
      js ''    process.exit(r.status);'',
      js ''  }'',
      js ''}'',
      [],
      js ''(async () => {'']"

definition replay_lines :: "jsstring \<Rightarrow> entry list \<Rightarrow> jsstring list" where
  "replay_lines generated_at entries =
     script_header (length entries) generated_at @ map run_line entries @ [js ''})();'']"

text \<open>
  What the script does when Node evaluates it. A line \<^verbatim>\<open>  run(<literal>);\<close> calls
  \<^verbatim>\<open>run\<close> on the value of the literal; no other line of the script calls it.
\<close>

definition invocation_of :: "jsstring \<Rightarrow> jsstring option" where
  "invocation_of line =
     (if startsWith line (js ''  run('') then
        (case string_literal (drop 6 line) of
           None \<Rightarrow> None
         | Some (s, rest) \<Rightarrow> if rest = js '');'' then Some s else None)
      else None)"

definition script_invocations :: "jsstring list \<Rightarrow> jsstring list" where
  "script_invocations ls = List.map_filter invocation_of ls"

text \<open>
  The function \<^verbatim>\<open>run\<close> of the generated script, on the result \<^verbatim>\<open>r\<close> of
  \<^verbatim>\<open>spawnSync('sh', ['-c', cmd], { stdio: 'inherit' })\<close>: \<^verbatim>\<open>r.error\<close> is set when
  the subshell could not be spawned, \<^verbatim>\<open>r.status\<close> is the exit status, or null when
  there is none. The result is the status of \<^verbatim>\<open>process.exit\<close>, or \<open>None\<close> when
  \<^verbatim>\<open>run\<close> returns.
\<close>

record spawn_result =
  error :: bool
  status :: "nat option"

definition run :: "spawn_result \<Rightarrow> nat option" where
  "run r =
     (if error r then
        Some (case status r of None \<Rightarrow> 1 | Some n \<Rightarrow> if n = 0 then 1 else n)
      else
        (case status r of
           None \<Rightarrow> None
         | Some n \<Rightarrow> if n \<noteq> 0 then Some n else None))"

text \<open>
  The body of the async function runs the commands in order. \<open>sh\<close> is the subshell:
  from the state of the machine and the command text it gives the result of the spawn
  and the new state. \<open>replay\<close> returns the commands it handed to the subshell, the exit
  status if \<^verbatim>\<open>run\<close> ended the process, and the final state.
\<close>

fun replay :: "('w \<Rightarrow> jsstring \<Rightarrow> spawn_result \<times> 'w) \<Rightarrow> 'w \<Rightarrow> jsstring list
    \<Rightarrow> jsstring list \<times> nat option \<times> 'w" where
  "replay sh w [] = ([], None, w)"
| "replay sh w (c # cs) =
     (case sh w c of
        (r, w') \<Rightarrow>
          (case run r of
             Some n \<Rightarrow> ([c], Some n, w')
           | None \<Rightarrow>
               (case replay sh w' cs of
                  (cs', st, w'') \<Rightarrow> (c # cs', st, w''))))"



section \<open>The metadata document\<close>

text \<open>
  \<^verbatim>\<open>JSON.stringify({ originalCapturedAt, tmpWorkspace, entries }, null, 2)\<close>: one
  property per line, nested levels indented by two more spaces, array elements and
  properties separated by a comma at the end of the line, an empty array as \<^verbatim>\<open>[]\<close>.
\<close>

definition json_key :: "string \<Rightarrow> jsstring" where
  "json_key k = 0x22 # js k @ [0x22, 0x3A, 0x20]"

definition entry_lines :: "entry \<Rightarrow> jsstring list" where
  "entry_lines e =
     [js ''    {'',
      js ''      '' @ json_key ''ts''
        @ (case ts e of None \<Rightarrow> js ''null'' | Some t \<Rightarrow> JSON_stringify t) @ js '','',
      js ''      '' @ json_key ''cmd'' @ JSON_stringify (cmd e)]"

fun elements :: "entry list \<Rightarrow> jsstring list" where
  "elements [] = []"
| "elements [e] = entry_lines e @ [js ''    }'']"
| "elements (e # f # es) = entry_lines e @ [js ''    },''] @ elements (f # es)"

definition meta_lines :: "jsstring \<Rightarrow> jsstring \<Rightarrow> entry list \<Rightarrow> jsstring list" where
  "meta_lines captured_at tmpRoot entries =
     [js ''{'',
      js ''  '' @ json_key ''originalCapturedAt'' @ JSON_stringify captured_at @ js '','',
      js ''  '' @ json_key ''tmpWorkspace'' @ JSON_stringify tmpRoot @ js '','']
     @ (if entries = [] then [js ''  '' @ json_key ''entries'' @ js ''[]'']
        else [js ''  '' @ json_key ''entries'' @ js ''[''] @ elements entries @ [js ''  ]''])
     @ [js ''}'']"

text \<open>Reading a \<^verbatim>\<open>"cmd"\<close> property line of the metadata back.\<close>

definition meta_cmd_of :: "jsstring \<Rightarrow> jsstring option" where
  "meta_cmd_of line =
     (if startsWith line (js ''      '' @ json_key ''cmd'') then
        (case string_literal (drop 13 line) of
           None \<Rightarrow> None
         | Some (s, rest) \<Rightarrow> if rest = [] then Some s else None)
      else None)"

section \<open>The capture program\<close>

text \<open>
  \<^verbatim>\<open>shell2node.ts\<close> is one script: it checks its arguments, creates the workspace,
  spawns the shell and registers two handlers on the child, \<^verbatim>\<open>exit\<close> and
  \<^verbatim>\<open>error\<close>. The model runs it against a \<open>world\<close>, which holds everything the
  script reads from outside, and returns the events it produces, in order, and how the
  process ends.

  Files are named by their role; the path strings are not modelled.
\<close>

datatype fsfile = LogFile | MarkerFile | BashRc | ZshRc | OutDir | MetaFile | ReplayFile

text \<open>
  The calls into the operating system that throw when they fail. Nothing in the script
  catches an exception. \<^verbatim>\<open>spawn\<close> is among them: Node reports some failures to
  start the child (a missing or non-executable file, exhausted resources) later,
  through the child's \<^verbatim>\<open>error\<close> event, and throws at the call for the others (for
  instance a path through something that is not a directory).
\<close>

datatype fs_call =
  Mkdtemp | WriteLog | WriteBashRc | WriteZshRc | Spawn | ReadLog | Cwd | MkdirOut
  | WriteMeta | WriteReplay

text \<open>
  The text of a written file: a string, or one of the two templates of
  \<^verbatim>\<open>utils/rcContent.ts\<close> filled with the paths of the log and the marker.
\<close>

datatype content = Literal jsstring | BashRcContent | ZshRcContent

datatype arg = Flag jsstring | PathOf fsfile

text \<open>
  A message is named by its role, not by its text. The warning about an unknown shell
  carries the shell path it names; the lower-cased base name, which the text of the
  warning also shows, is not part of the model.
\<close>

datatype msg =
  Usage | HelpMessage | DetectedZsh | DetectedBash
  | UnsupportedShellWarning jsstring
  | ShellExited "nat option" "jsstring option"
  | NoSaveMarker | TmpDataAvailable | NoRecordedCommands | CommandsLog
  | GeneratedScript | Metadata | WorkspaceRetained | ReviewTip | FailedToSpawn

text \<open>
  \<open>WriteFile f c m\<close> is \<^verbatim>\<open>fs.writeFileSync\<close> on \<open>f\<close> with the mode option \<open>m\<close>
  (\<open>None\<close> when the call passes no mode); \<open>SpawnChild sh args z\<close> is
  \<^verbatim>\<open>spawn(sh, args, { stdio: 'inherit' })\<close>, with \<^verbatim>\<open>ZDOTDIR\<close> set to the workspace
  in the child's environment when \<open>z\<close> holds. An event is recorded when its call
  succeeded.
\<close>

datatype event =
  Console msg
  | WriteFile fsfile content "12 word option"
  | Mkdir fsfile
  | SpawnChild jsstring "arg list" bool

text \<open>The process ends by \<^verbatim>\<open>process.exit(n)\<close> or by an exception nobody caught.\<close>

datatype outcome = Exited nat | Threw fs_call

record world =
  argv :: "jsstring list"
  SHELL :: "jsstring option"
  tmpRoot :: jsstring
  failing :: "fs_call list"
  spawn_error :: bool
  child_code :: "nat option"
  child_signal :: "jsstring option"
  marker_exists :: bool
  log_text :: jsstring
  outdir_exists :: bool
  captured_at :: jsstring
  generated_at :: jsstring
  usage_status :: nat

definition throws :: "world \<Rightarrow> fs_call \<Rightarrow> bool" where
  "throws w c \<longleftrightarrow> c \<in> set (failing w)"

text \<open>The file modes of the source, \<^verbatim>\<open>0o600\<close>, and of Node's default, \<^verbatim>\<open>0o666\<close>.\<close>

definition mode_0o600 :: "12 word" where
  "mode_0o600 = 6 * 64"

definition mode_0o666 :: "12 word" where
  "mode_0o666 = 6 * 64 + 6 * 8 + 6"

text \<open>
  The mode a file gets when \<^verbatim>\<open>fs.writeFileSync\<close> creates it: the mode option, or
  \<^verbatim>\<open>0o666\<close> when there is none, without the bits of the process's umask.
\<close>

definition created_mode :: "12 word option \<Rightarrow> 12 word \<Rightarrow> 12 word" where
  "created_mode m umask = (case m of None \<Rightarrow> mode_0o666 | Some x \<Rightarrow> x) AND NOT umask"

text \<open>The mode options of the writes to a file, in order.\<close>

fun requested_modes :: "fsfile \<Rightarrow> event list \<Rightarrow> 12 word option list" where
  "requested_modes f [] = []"
| "requested_modes f (WriteFile g c m # evs) =
     (if g = f then m # requested_modes f evs else requested_modes f evs)"
| "requested_modes f (e # evs) = requested_modes f evs"

fun written :: "fsfile \<Rightarrow> event list \<Rightarrow> content list" where
  "written f [] = []"
| "written f (WriteFile g c m # evs) =
     (if g = f then c # written f evs else written f evs)"
| "written f (e # evs) = written f evs"

subsection \<open>Choosing how to spawn the shell\<close>

text \<open>
  \<^verbatim>\<open>path.basename\<close> (POSIX): trailing slashes are dropped, then the part after the
  last slash is taken.

  The lower-cased base name is used for the two substring tests only. \<open>toLowerCase\<close>
  lower-cases the ASCII letters and leaves every other code unit as it is. It is not
  \<^verbatim>\<open>String.prototype.toLowerCase\<close> on strings with other characters, but the two
  tests come out the same: Unicode's lower-casing of a character outside ASCII yields
  none of the letters of \<^verbatim>\<open>zsh\<close> and \<^verbatim>\<open>bash\<close>.
\<close>

definition basename :: "jsstring \<Rightarrow> jsstring" where
  "basename p = rev (takeWhile (\<lambda>c. c \<noteq> 0x2F) (dropWhile (\<lambda>c. c = 0x2F) (rev p)))"

definition toLowerCase :: "jsstring \<Rightarrow> jsstring" where
  "toLowerCase s = map (\<lambda>c. if 0x41 \<le> c \<and> c \<le> 0x5A then c + 0x20 else c) s"

text \<open>\<^verbatim>\<open>process.env.SHELL || '/bin/bash'\<close>: an unset or empty variable gives the default.\<close>

definition userShell :: "world \<Rightarrow> jsstring" where
  "userShell w =
     (case SHELL w of
        None \<Rightarrow> js ''/bin/bash''
      | Some s \<Rightarrow> if s = [] then js ''/bin/bash'' else s)"

definition launch :: "jsstring \<Rightarrow> event list" where
  "launch sh =
     (let shellBase = toLowerCase (basename sh) in
      if js_includes shellBase (js ''zsh'') then
        [Console DetectedZsh, SpawnChild sh [Flag (js ''-i'')] True]
      else if js_includes shellBase (js ''bash'') then
        [Console DetectedBash,
         SpawnChild sh [Flag (js ''--rcfile''), PathOf BashRc, Flag (js ''-i'')] False]
      else
        Console (UnsupportedShellWarning sh) #
        (if js_includes sh (js ''bash'') then
           [SpawnChild sh [Flag (js ''--rcfile''), PathOf BashRc, Flag (js ''-i'')] False]
         else [SpawnChild sh [Flag (js ''-i'')] False]))"

subsection \<open>The exit handler\<close>

definition on_exit :: "world \<Rightarrow> event list \<times> outcome" where
  "on_exit w =
     (let evs0 = [Console (ShellExited (child_code w) (child_signal w))] in
      if \<not> marker_exists w then
        (evs0 @ [Console NoSaveMarker, Console TmpDataAvailable], Exited 0)
      else if throws w ReadLog then (evs0, Threw ReadLog)
      else
        let entries = entries_of (log_text w) in
        if length entries = 0 then
          (evs0 @ [Console NoRecordedCommands, Console CommandsLog], Exited 0)
        else if throws w Cwd then (evs0, Threw Cwd)
        else if \<not> outdir_exists w \<and> throws w MkdirOut then (evs0, Threw MkdirOut)
        else
          let evs1 = evs0 @ (if outdir_exists w then [] else [Mkdir OutDir]) in
          if throws w WriteMeta then (evs1, Threw WriteMeta)
          else
            let meta = join_lines (meta_lines (captured_at w) (tmpRoot w) entries);
                evs2 = evs1 @ [WriteFile MetaFile (Literal meta) None]
            in
            if throws w WriteReplay then (evs2, Threw WriteReplay)
            else
              (evs2 @
               [WriteFile ReplayFile
                  (Literal (join_lines (replay_lines (generated_at w) entries))) None,
                Console GeneratedScript, Console Metadata, Console WorkspaceRetained,
                Console ReviewTip],
               Exited 0))"

subsection \<open>The script\<close>

text \<open>
  Modelled from the spec: the helper \<^verbatim>\<open>usageAndExit\<close>, which \<^verbatim>\<open>shell2node.ts\<close>
  imports from \<^verbatim>\<open>./utils\<close> and which is not in the sources at hand. The
  specification says that any other or missing argument prints usage and exits
  non-zero; the status itself is not given, so the world supplies it.
\<close>

definition usageAndExit :: "world \<Rightarrow> event list \<times> outcome" where
  "usageAndExit w = ([Console Usage], Exited (usage_status w))"

text \<open>
  The script proper. The spawn is the last event of \<open>launch\<close>: when the call throws,
  the message before it has been printed and the exception leaves the script. When the
  child is created, \<open>spawn_error\<close> says that it then emits \<^verbatim>\<open>error\<close> and not
  \<^verbatim>\<open>exit\<close>.
\<close>

definition valid_invocation :: "jsstring list \<Rightarrow> bool" where
  "valid_invocation args = (case args of [] \<Rightarrow> False | a # _ \<Rightarrow> a = js ''capture'')"

definition main :: "world \<Rightarrow> event list \<times> outcome" where
  "main w =
     (if valid_invocation (argv w) then
        if throws w Mkdtemp then ([], Threw Mkdtemp)
        else if throws w WriteLog then ([], Threw WriteLog)
        else
          let evs0 = [WriteFile LogFile (Literal []) None, Console HelpMessage] in
          if throws w WriteBashRc then (evs0, Threw WriteBashRc)
          else
            let evs1 = evs0 @ [WriteFile BashRc BashRcContent (Some mode_0o600)] in
            if throws w WriteZshRc then (evs1, Threw WriteZshRc)
            else
              let evs2 = evs1 @ [WriteFile ZshRc ZshRcContent (Some mode_0o600)] in
              if throws w Spawn then (evs2 @ butlast (launch (userShell w)), Threw Spawn)
              else
                let evs3 = evs2 @ launch (userShell w) in
                if spawn_error w then (evs3 @ [Console FailedToSpawn], Exited 2)
                else (case on_exit w of (evs4, t) \<Rightarrow> (evs3 @ evs4, t))
      else usageAndExit w)"

text \<open>
  The status the operating system sees: that of \<^verbatim>\<open>process.exit\<close>, and 1 when Node
  ends the process on an uncaught exception.
\<close>

fun exit_status :: "outcome \<Rightarrow> nat" where
  "exit_status (Exited n) = n"
| "exit_status (Threw c) = 1"

section \<open>Example sessions\<close>

text \<open>A log whose first line has a timestamp and no command text.\<close>

definition log_blank_command :: jsstring where
  "log_blank_command = js ''T \<newline>T ls\<newline>T shell2nodex''"

text \<open>A log whose last line has a timestamp and no command text.\<close>

definition log_blank_last :: jsstring where
  "log_blank_last = js ''T1 ls\<newline>T2 \<newline>''"

text \<open>A saved session: \<^verbatim>\<open>echo hi\<close>, \<^verbatim>\<open>false\<close>, \<^verbatim>\<open>echo after\<close>, then
  \<^verbatim>\<open>shell2node save\<close>, under a shell the script does not know.\<close>

definition saved_session :: world where
  "saved_session =
     \<lparr>argv = [js ''capture''], SHELL = Some (js ''/bin/sh''),
      tmpRoot = js ''/tmp/shell2node-a1'', failing = [], spawn_error = False,
      child_code = Some 0, child_signal = None, marker_exists = True,
      log_text =
        js ''T1 echo hi\<newline>T2 false\<newline>T3 echo after\<newline>T4 shell2node save\<newline>'',
      outdir_exists = False, captured_at = js ''D1'', generated_at = js ''D2'',
      usage_status = 1\<rparr>"


text \<open>The same session when the log cannot be read, when the working directory is
  read-only, so that the output directory cannot be created, and when the shell path
  runs through a file, so that \<^verbatim>\<open>spawn\<close> throws.\<close>

definition unreadable_log_session :: world where
  "unreadable_log_session = saved_session\<lparr>failing := [ReadLog]\<rparr>"

definition readonly_cwd_session :: world where
  "readonly_cwd_session = saved_session\<lparr>failing := [MkdirOut]\<rparr>"

definition spawn_throws_session :: world where
  "spawn_throws_session =
     saved_session\<lparr>SHELL := Some (js ''/bin/bash/''), failing := [Spawn]\<rparr>"

text \<open>The umask \<^verbatim>\<open>0o022\<close> and the mode \<^verbatim>\<open>0o644\<close>.\<close>

definition umask_0o022 :: "12 word" where
  "umask_0o022 = 2 * 8 + 2"

definition mode_0o644 :: "12 word" where
  "mode_0o644 = 6 * 64 + 4 * 8 + 4"

section \<open>Properties of the string operations\<close>

lemma indexOf_none: "x \<notin> set s \<Longrightarrow> indexOf s x = -1"
  by (induction s) auto

lemma indexOf_first: "x \<notin> set a \<Longrightarrow> indexOf (a @ x # b) x = int (length a)"
  by (induction a) (auto simp: Let_def)

lemma startsWith_prefix: "startsWith s p \<longleftrightarrow> prefix p s"
  unfolding startsWith_def prefix_def
  by (metis append_eq_conv_conj)

lemma js_includes_sublist: "js_includes s p \<longleftrightarrow> sublist p s"
proof (induction s)
  case Nil
  show ?case by auto
next
  case (Cons c cs)
  show ?case
    by (simp add: Cons startsWith_prefix sublist_Cons_right)
qed

lemma trim_decompose:
  "s = takeWhile is_white s @ trim s @ rev (takeWhile is_white (rev (dropWhile is_white s)))"
proof -
  let ?r = "rev (dropWhile is_white s)"
  have "rev (dropWhile is_white ?r) @ rev (takeWhile is_white ?r)
      = rev (takeWhile is_white ?r @ dropWhile is_white ?r)"
    by (simp only: rev_append)
  also have "\<dots> = dropWhile is_white s" by simp
  finally have "trim s @ rev (takeWhile is_white ?r) = dropWhile is_white s"
    by (simp add: trim_def)
  then have "takeWhile is_white s @ trim s @ rev (takeWhile is_white ?r)
      = takeWhile is_white s @ dropWhile is_white s"
    by simp
  then show ?thesis by simp
qed

lemma trim_ends:
  assumes "trim s \<noteq> []"
  shows "\<not> is_white (hd (trim s)) \<and> \<not> is_white (last (trim s))"
proof -
  let ?r = "rev (dropWhile is_white s)"
  let ?d = "dropWhile is_white ?r"
  have ne: "?d \<noteq> []" using assms by (simp add: trim_def)
  have l: "\<not> is_white (hd ?d)" using ne by (rule hd_dropWhile)
  have "last (trim s) = hd ?d" using ne by (simp add: trim_def last_rev)
  then have a: "\<not> is_white (last (trim s))" using l by simp
  have rne: "?r \<noteq> []" using ne by (cases ?r) simp_all
  then have dne: "dropWhile is_white s \<noteq> []" by simp
  have h: "\<not> is_white (hd (dropWhile is_white s))" using dne by (rule hd_dropWhile)
  have "last ?r = hd (dropWhile is_white s)"
    using dne by (simp add: last_rev)
  then have nl: "\<not> is_white (last ?r)" using h by simp
  have "last ?r \<in> set ?r" using rne by (rule last_in_set)
  then have "last ?d = last ?r"
    using nl by (rule dropWhile_last)
  then have "hd (trim s) = hd (dropWhile is_white s)"
    using ne dne by (simp add: trim_def hd_rev last_rev)
  then show ?thesis using a h by simp
qed

lemma split_lines_nonempty: "split_lines s \<noteq> []"
  by (induction s rule: split_lines.induct) (auto simp: push_unit_def split: list.splits)

lemma split_lines_no_lf: "l \<in> set (split_lines s) \<Longrightarrow> 0x0A \<notin> set l"
  by (induction s arbitrary: l rule: split_lines.induct)
     (auto simp: push_unit_def split: list.splits if_splits)

lemma last_push_unit: "ls \<noteq> [] \<Longrightarrow> last ls \<noteq> [] \<Longrightarrow>
   last (push_unit c ls) \<noteq> [] \<and> last (last (push_unit c ls)) = last (last ls)"
  by (cases ls) (auto simp: push_unit_def)

lemma split_lines_last:
  "s \<noteq> [] \<Longrightarrow> last s \<noteq> 0x0A \<Longrightarrow>
   last (split_lines s) \<noteq> [] \<and> last (last (split_lines s)) = last s"
proof (induction s rule: split_lines.induct)
  case 1
  then show ?case by simp
next
  case (2 c)
  then show ?case by simp
next
  case (3 c d ds)
  have tl: "last (c # d # ds) = last (d # ds)" by simp
  show ?case
  proof (cases "c = 0x0A")
    case True
    then have q: "split_lines (c # d # ds) = [] # split_lines (d # ds)" by simp
    have "last (split_lines (d # ds)) \<noteq> []
        \<and> last (last (split_lines (d # ds))) = last (d # ds)"
      using "3.IH"(1) [OF True] "3.prems" by simp
    then show ?thesis
      unfolding q tl using split_lines_nonempty [of "d # ds"] by simp
  next
    case nl: False
    show ?thesis
    proof (cases "c = 0x0D \<and> d = 0x0A")
      case True
      then have q: "split_lines (c # d # ds) = [] # split_lines ds" using nl by simp
      have ne: "ds \<noteq> []" using "3.prems" True by auto
      then have l: "last (c # d # ds) = last ds" by simp
      have "last ds \<noteq> 0x0A" using "3.prems" l by simp
      then have "last (split_lines ds) \<noteq> [] \<and> last (last (split_lines ds)) = last ds"
        using "3.IH"(2) [OF nl True ne] by simp
      then show ?thesis
        unfolding q l using split_lines_nonempty [of ds] by simp
    next
      case False
      then have q: "split_lines (c # d # ds) = push_unit c (split_lines (d # ds))"
        using nl by auto
      have "last (split_lines (d # ds)) \<noteq> []
          \<and> last (last (split_lines (d # ds))) = last (d # ds)"
        using "3.IH"(3) [OF nl False] "3.prems" by simp
      then show ?thesis
        unfolding q tl
        using last_push_unit [OF split_lines_nonempty, of "d # ds" c] by simp
    qed
  qed
qed

lemma last_filter: "xs \<noteq> [] \<Longrightarrow> P (last xs) \<Longrightarrow> last (filter P xs) = last xs"
proof (induction xs)
  case Nil
  then show ?case by simp
next
  case (Cons a xs)
  show ?case
  proof (cases "xs = []")
    case True
    then show ?thesis using Cons.prems by simp
  next
    case False
    then have p: "P (last xs)" using Cons.prems by simp
    have "last xs \<in> set xs" using False by (rule last_in_set)
    then have "filter P xs \<noteq> []" using p by (auto simp: filter_empty_conv)
    then show ?thesis using Cons.IH [OF False p] False by simp
  qed
qed

section \<open>Properties of the parser\<close>

lemma parse_line_nospace: "0x20 \<notin> set l \<Longrightarrow> parse_line l = \<lparr>ts = None, cmd = l\<rparr>"
  by (simp add: parse_line_def indexOf_none)

lemma parse_line_split:
  assumes "0x20 \<notin> set a"
  shows "parse_line (a @ 0x20 # b) = \<lparr>ts = Some a, cmd = b\<rparr>"
proof -
  have n: "nat (int (length a) + 1) = Suc (length a)" by simp
  show ?thesis
    using assms by (simp add: parse_line_def indexOf_first slice_def slice_from_def Let_def n)
qed

lemma keep_iff: "keep e \<longleftrightarrow> cmd e \<noteq> [] \<and> \<not> prefix (js ''shell2node'') (cmd e)"
  by (simp add: keep_def startsWith_prefix)

lemma entries_of_cmd_nonempty: "e \<in> set (entries_of text) \<Longrightarrow> cmd e \<noteq> []"
  by (simp add: entries_of_def keep_def)

lemma raw_lines_last:
  assumes "raw_lines log \<noteq> []"
  shows "last (last (raw_lines log)) \<noteq> 0x20"
proof -
  have ne: "trim log \<noteq> []"
    using assms by (auto simp: raw_lines_def)
  have w: "\<not> is_white (last (trim log))"
    using trim_ends [OF ne] by simp
  then have nlf: "last (trim log) \<noteq> 0x0A" and nsp: "last (trim log) \<noteq> 0x20"
    by (auto simp: is_white_def)
  have l: "last (split_lines (trim log)) \<noteq> []
      \<and> last (last (split_lines (trim log))) = last (trim log)"
    using ne nlf by (rule split_lines_last)
  have "last (raw_lines log) = last (split_lines (trim log))"
    unfolding raw_lines_def using split_lines_nonempty l by (intro last_filter) auto
  then show ?thesis using l nsp by simp
qed

section \<open>Properties of the JSON string literals\<close>

lemma unat_hex_digit: "n < 16 \<Longrightarrow> unat (hex_digit n) = (if n < 10 then 48 + n else 87 + n)"
proof -
  assume h: "n < 16"
  have e: "hex_digit n = of_nat (if n < 10 then 48 + n else 87 + n)"
    by (simp add: hex_digit_def)
  show ?thesis
    unfolding e using h by (simp add: unat_of_nat take_bit_nat_eq_self)
qed

lemma hex_value_digit: "n < 16 \<Longrightarrow> hex_value (hex_digit n) = Some n"
  by (simp add: hex_value_def unat_hex_digit Let_def)

lemma nibbles:
  fixes n :: nat
  assumes "n < 65536"
  shows "((n div 4096 mod 16 * 16 + n div 256 mod 16) * 16 + n div 16 mod 16) * 16 + n mod 16 = n"
proof -
  have d2: "n div 256 = n div 16 div 16" by (simp add: div_mult2_eq)
  have d3: "n div 4096 = n div 16 div 16 div 16" by (simp add: div_mult2_eq)
  have s: "n div 4096 < 16" using assms by simp
  have "n div 16 div 16 div 16 mod 16 = n div 16 div 16 div 16" using s d3 by simp
  moreover have "n div 16 div 16 div 16 * 16 + n div 16 div 16 mod 16 = n div 16 div 16" by simp
  moreover have "n div 16 div 16 * 16 + n div 16 mod 16 = n div 16" by simp
  moreover have "n div 16 * 16 + n mod 16 = n" by simp
  ultimately show ?thesis by (simp add: d2 d3)
qed

lemma hex4_escape: "hex4 [hex_digit (unat c div 4096 mod 16), hex_digit (unat c div 256 mod 16),
          hex_digit (unat c div 16 mod 16), hex_digit (unat c mod 16)] = Some c"
proof -
  have b: "unat c < 65536" using unsigned_less [of c, where 'a = nat] by simp
  have "hex4 [hex_digit (unat c div 4096 mod 16), hex_digit (unat c div 256 mod 16),
          hex_digit (unat c div 16 mod 16), hex_digit (unat c mod 16)]
      = Some (of_nat (((unat c div 4096 mod 16 * 16 + unat c div 256 mod 16) * 16
                 + unat c div 16 mod 16) * 16 + unat c mod 16))"
    by (simp add: hex4_def hex_value_digit del: of_nat_add of_nat_mult)
  also have "\<dots> = Some (of_nat (unat c))"
    by (simp only: nibbles [OF b])
  finally show ?thesis by simp
qed

lemma unquote_escape: "unquote_units (unicode_escape c @ xs) = emit c (unquote_units xs)"
  by (simp add: unicode_escape_def Let_def hex4_escape)

lemma unquote_plain:
  "c \<noteq> 0x22 \<Longrightarrow> c \<noteq> 0x5C \<Longrightarrow> \<not> c < 0x20 \<Longrightarrow> unquote_units (c # xs) = emit c (unquote_units xs)"
  by simp

lemma unquote_quote_unit: "unquote_units (quote_unit c @ xs) = emit c (unquote_units xs)"
  by (simp add: quote_unit_def unquote_escape simple_escape_def)

lemma lead_plain: "is_lead c \<Longrightarrow> c \<noteq> 0x22 \<and> c \<noteq> 0x5C \<and> \<not> c < 0x20"
  by (auto simp: is_lead_def word_le_nat_alt word_less_nat_alt)
lemma trail_plain: "is_trail c \<Longrightarrow> c \<noteq> 0x22 \<and> c \<noteq> 0x5C \<and> \<not> c < 0x20"
  by (auto simp: is_trail_def word_le_nat_alt word_less_nat_alt)

lemma unquote_close: "unquote_units (0x22 # rest) = Some ([], rest)"
  by simp

lemma unquote_quote_units: "unquote_units (quote_units s @ 0x22 # rest) = Some (s, rest)"
proof (induction s rule: quote_units.induct)
  case 1
  show ?case by simp
next
  case (2 c)
  show ?case by (simp add: unquote_quote_unit unquote_close emit_def del: unquote_units.simps)
next
  case (3 c d ds)
  show ?case
  proof (cases "is_lead c \<and> is_trail d")
    case True
    then have q: "quote_units (c # d # ds) = c # d # quote_units ds"
      by simp
    have "unquote_units (quote_units ds @ 0x22 # rest) = Some (ds, rest)"
      using 3(1) True by blast
    then show ?thesis
      unfolding q using True lead_plain [of c] trail_plain [of d]
      by (simp add: unquote_plain emit_def del: unquote_units.simps quote_units.simps)
  next
    case False
    then have q: "quote_units (c # d # ds) = quote_unit c @ quote_units (d # ds)"
      by auto
    have "unquote_units (quote_units (d # ds) @ 0x22 # rest) = Some (d # ds, rest)"
      using 3(2) False by blast
    then show ?thesis
      unfolding q by (simp add: unquote_quote_unit emit_def del: unquote_units.simps quote_units.simps)
  qed
qed

lemma string_literal_stringify: "string_literal (JSON_stringify s @ rest) = Some (s, rest)"
  by (simp add: string_literal_def JSON_stringify_def unquote_quote_units del: unquote_units.simps)

lemma hex_digit_not_eol: "n < 16 \<Longrightarrow> hex_digit n \<noteq> 0x0A \<and> hex_digit n \<noteq> 0x0D"
proof -
  assume h: "n < 16"
  have "unat (hex_digit n) \<noteq> unat (0x0A :: 16 word) \<and> unat (hex_digit n) \<noteq> unat (0x0D :: 16 word)"
    using h by (simp add: unat_hex_digit)
  then show ?thesis by auto
qed

lemma quote_unit_no_eol: "0x0A \<notin> set (quote_unit c) \<and> 0x0D \<notin> set (quote_unit c)"
  using hex_digit_not_eol [of "unat c div 4096 mod 16"] hex_digit_not_eol [of "unat c div 256 mod 16"]
    hex_digit_not_eol [of "unat c div 16 mod 16"] hex_digit_not_eol [of "unat c mod 16"]
  by (auto simp: quote_unit_def unicode_escape_def Let_def)

lemma quote_units_no_eol: "0x0A \<notin> set (quote_units s) \<and> 0x0D \<notin> set (quote_units s)"
proof (induction s rule: quote_units.induct)
  case 1
  show ?case by simp
next
  case (2 c)
  show ?case using quote_unit_no_eol [of c] by simp
next
  case (3 c d ds)
  show ?case
  proof (cases "is_lead c \<and> is_trail d")
    case True
    then have q: "quote_units (c # d # ds) = c # d # quote_units ds" by simp
    have "c \<noteq> 0x0A \<and> c \<noteq> 0x0D \<and> d \<noteq> 0x0A \<and> d \<noteq> 0x0D"
      using True by (auto simp: is_lead_def is_trail_def)
    then show ?thesis unfolding q using 3(1) True by auto
  next
    case False
    then have q: "quote_units (c # d # ds) = quote_unit c @ quote_units (d # ds)" by auto
    show ?thesis unfolding q using 3(2) False quote_unit_no_eol [of c] by auto
  qed
qed

lemma JSON_stringify_no_eol: "0x0A \<notin> set (JSON_stringify s) \<and> 0x0D \<notin> set (JSON_stringify s)"
  using quote_units_no_eol [of s] by (simp add: JSON_stringify_def)

lemma JSON_stringify_inj: "JSON_stringify s = JSON_stringify t \<Longrightarrow> s = t"
proof -
  assume "JSON_stringify s = JSON_stringify t"
  then have "string_literal (JSON_stringify s @ []) = string_literal (JSON_stringify t @ [])"
    by simp
  then show ?thesis by (simp only: string_literal_stringify) simp
qed

section \<open>Properties of the generated documents\<close>

lemma invocation_run_line: "invocation_of (run_line e) = Some (cmd e)"
proof -
  have d: "drop 6 (run_line e) = JSON_stringify (cmd e) @ js '');''"
    by (simp add: run_line_def js_def)
  have s: "startsWith (run_line e) (js ''  run('')"
    by (simp add: run_line_def js_def startsWith_def)
  show ?thesis
    unfolding invocation_of_def d string_literal_stringify using s by simp
qed

lemma not_invocation: "\<not> startsWith l (js ''  run('') \<Longrightarrow> invocation_of l = None"
  by (simp add: invocation_of_def)

lemma header_no_invocation: "l \<in> set (script_header n g) \<Longrightarrow> invocation_of l = None"
  by (rule not_invocation) (auto simp: script_header_def js_def startsWith_def)

lemma footer_no_invocation: "invocation_of (js ''})();'') = None"
  by (rule not_invocation) (simp add: js_def startsWith_def)

lemma map_filter_none: "(\<And>x. x \<in> set xs \<Longrightarrow> f x = None) \<Longrightarrow> List.map_filter f xs = []"
  by (induction xs) (simp_all add: List.map_filter_simps)

lemma map_filter_some: "List.map_filter f (map g xs) = map h xs" if "\<And>x. f (g x) = Some (h x)"
  by (induction xs) (simp_all add: List.map_filter_simps that)

lemma map_filter_app: "List.map_filter f (xs @ ys) = List.map_filter f xs @ List.map_filter f ys"
  by (simp add: List.map_filter_def)

lemma script_invocations_replay: "script_invocations (replay_lines g es) = map cmd es"
proof -
  have h: "List.map_filter invocation_of (script_header (length es) g) = []"
    by (rule map_filter_none) (rule header_no_invocation)
  have m: "List.map_filter invocation_of (map run_line es) = map cmd es"
    by (rule map_filter_some) (rule invocation_run_line)
  show ?thesis
    by (simp add: script_invocations_def replay_lines_def map_filter_app h m
        List.map_filter_simps footer_no_invocation)
qed

lemma string_literal_whole: "string_literal (JSON_stringify s) = Some (s, [])"
  using string_literal_stringify [of s "[]"] by simp

lemma meta_cmd_entry: "meta_cmd_of (js ''      '' @ json_key ''cmd'' @ JSON_stringify c) = Some c"
proof -
  let ?l = "js ''      '' @ json_key ''cmd'' @ JSON_stringify c"
  have d: "drop 13 ?l = JSON_stringify c"
    by (simp add: json_key_def js_def)
  have s: "startsWith ?l (js ''      '' @ json_key ''cmd'')"
    by (simp add: json_key_def js_def startsWith_def)
  show ?thesis
    unfolding meta_cmd_of_def d string_literal_whole using s by simp
qed

lemma not_meta_cmd:
  "\<not> startsWith l (js ''      '' @ json_key ''cmd'') \<Longrightarrow> meta_cmd_of l = None"
  by (simp add: meta_cmd_of_def)

lemma meta_cmd_entry_lines: "List.map_filter meta_cmd_of (entry_lines e) = [cmd e]"
proof -
  have a: "meta_cmd_of (js ''    {'') = None"
    by (rule not_meta_cmd) (simp add: json_key_def js_def startsWith_def)
  have b: "meta_cmd_of (js ''      '' @ json_key ''ts''
        @ (case ts e of None \<Rightarrow> js ''null'' | Some t \<Rightarrow> JSON_stringify t) @ js '','') = None"
    by (rule not_meta_cmd) (simp add: json_key_def js_def startsWith_def)
  show ?thesis
    by (simp add: entry_lines_def List.map_filter_simps a b meta_cmd_entry)
qed

lemma meta_cmd_elements: "List.map_filter meta_cmd_of (elements es) = map cmd es"
proof (induction es rule: elements.induct)
  case 1
  show ?case by (simp add: List.map_filter_simps)
next
  case (2 e)
  have "meta_cmd_of (js ''    }'') = None"
    by (rule not_meta_cmd) (simp add: json_key_def js_def startsWith_def)
  then show ?case
    by (simp add: map_filter_app meta_cmd_entry_lines List.map_filter_simps)
next
  case (3 e f es)
  have "meta_cmd_of (js ''    },'') = None"
    by (rule not_meta_cmd) (simp add: json_key_def js_def startsWith_def)
  then show ?case
    using 3 by (simp add: map_filter_app meta_cmd_entry_lines List.map_filter_simps
        del: elements.simps(3)) (simp add: map_filter_app meta_cmd_entry_lines List.map_filter_simps)
qed

lemma meta_cmd_meta_lines: "List.map_filter meta_cmd_of (meta_lines a r es) = map cmd es"
proof -
  have p: "\<And>x. \<not> startsWith (js ''  '' @ json_key k @ x) (js ''      '' @ json_key ''cmd'')" for k
    by (simp add: json_key_def js_def startsWith_def)
  have h: "meta_cmd_of (js ''{'') = None" "meta_cmd_of (js ''}'') = None"
    "meta_cmd_of (js ''  ]'') = None"
    "\<And>x. meta_cmd_of (js ''  '' @ json_key k @ x) = None" for k
    by (rule not_meta_cmd, simp add: json_key_def js_def startsWith_def)+
  show ?thesis
    by (simp add: meta_lines_def map_filter_app List.map_filter_simps h meta_cmd_elements)
qed

section \<open>Properties of the replay\<close>





lemma replay_complete: "fst (snd (replay sh v cs)) = None \<Longrightarrow> fst (replay sh v cs) = cs"
proof (induction cs arbitrary: v)
  case Nil
  show ?case by simp
next
  case (Cons c cs)
  obtain r0 w0 where s: "sh v c = (r0, w0)" by (cases "sh v c")
  obtain ex st w1 where t: "replay sh w0 cs = (ex, st, w1)" by (cases "replay sh w0 cs")
  from Cons.prems s t have n: "run r0 = None \<and> st = None"
    by (simp split: option.splits)
  then have "ex = cs" using Cons.IH [of w0] t by simp
  then show ?case using s t n by simp
qed


section \<open>The script as text\<close>

lemma text_lines_nonempty: "text_lines s \<noteq> []"
  by (induction s) (auto simp: push_unit_def split: list.splits)









section \<open>The replay against the results of all steps\<close>



section \<open>Properties of the capture program\<close>

lemma written_append: "written f (xs @ ys) = written f xs @ written f ys"
  by (induction f xs rule: written.induct) simp_all

lemma on_exit_saved:
  assumes "marker_exists w" "failing w = []" "entries_of (log_text w) \<noteq> []"
  shows "on_exit w =
    ([Console (ShellExited (child_code w) (child_signal w))]
       @ (if outdir_exists w then [] else [Mkdir OutDir])
       @ [WriteFile MetaFile
            (Literal (join_lines (meta_lines (captured_at w) (tmpRoot w) (entries_of (log_text w)))))
            None,
          WriteFile ReplayFile
            (Literal (join_lines (replay_lines (generated_at w) (entries_of (log_text w))))) None,
          Console GeneratedScript, Console Metadata, Console WorkspaceRetained, Console ReviewTip],
     Exited 0)"
  using assms by (simp add: on_exit_def throws_def Let_def)

lemma requested_modes_append:
  "requested_modes f (xs @ ys) = requested_modes f xs @ requested_modes f ys"
  by (induction f xs rule: requested_modes.induct) simp_all

lemma saved_session_entries:
  "entries_of (log_text saved_session)
     = [\<lparr>ts = Some (js ''T1''), cmd = js ''echo hi''\<rparr>,
        \<lparr>ts = Some (js ''T2''), cmd = js ''false''\<rparr>,
        \<lparr>ts = Some (js ''T3''), cmd = js ''echo after''\<rparr>]"
  by (simp add: saved_session_def entries_of_def parse_entries_def raw_lines_def trim_def
      is_white_def js_def parse_line_def slice_def slice_from_def push_unit_def keep_def
      startsWith_def)

lemma launch_sh:
  "launch (js ''/bin/sh'')
     = [Console (UnsupportedShellWarning (js ''/bin/sh'')),
        SpawnChild (js ''/bin/sh'') [Flag (js ''-i'')] False]"
  by (simp add: launch_def basename_def toLowerCase_def js_def startsWith_def Let_def)

lemma on_exit_not_saved:
  "\<not> marker_exists w \<Longrightarrow>
   on_exit w = ([Console (ShellExited (child_code w) (child_signal w)), Console NoSaveMarker,
                 Console TmpDataAvailable], Exited 0)"
  by (simp add: on_exit_def)

lemma on_exit_unreadable:
  "marker_exists w \<Longrightarrow> throws w ReadLog \<Longrightarrow>
   on_exit w = ([Console (ShellExited (child_code w) (child_signal w))], Threw ReadLog)"
  by (simp add: on_exit_def)

lemma on_exit_no_entries:
  "marker_exists w \<Longrightarrow> \<not> throws w ReadLog \<Longrightarrow> entries_of (log_text w) = [] \<Longrightarrow>
   on_exit w = ([Console (ShellExited (child_code w) (child_signal w)),
                 Console NoRecordedCommands, Console CommandsLog], Exited 0)"
  by (simp add: on_exit_def)

lemma on_exit_outcome:
  "snd (on_exit w) = Exited 0 \<or> (\<exists>c\<in>set (failing w). snd (on_exit w) = Threw c)"
  by (simp add: on_exit_def Let_def throws_def)

lemma on_exit_written:
  "written MetaFile (fst (on_exit w)) \<noteq> [] \<and> written ReplayFile (fst (on_exit w)) \<noteq> []
   \<longleftrightarrow> marker_exists w \<and> \<not> throws w ReadLog \<and> entries_of (log_text w) \<noteq> []
       \<and> \<not> throws w Cwd \<and> (outdir_exists w \<or> \<not> throws w MkdirOut)
       \<and> \<not> throws w WriteMeta \<and> \<not> throws w WriteReplay"
  by (simp add: on_exit_def Let_def written_append)

lemma main_valid:
  assumes "valid_invocation (argv w)" "\<not> throws w Mkdtemp" "\<not> throws w WriteLog"
    "\<not> throws w WriteBashRc" "\<not> throws w WriteZshRc" "\<not> throws w Spawn"
  shows "main w =
    (if spawn_error w then
       ([WriteFile LogFile (Literal []) None, Console HelpMessage,
         WriteFile BashRc BashRcContent (Some mode_0o600),
         WriteFile ZshRc ZshRcContent (Some mode_0o600)] @ launch (userShell w)
        @ [Console FailedToSpawn], Exited 2)
     else
       ([WriteFile LogFile (Literal []) None, Console HelpMessage,
         WriteFile BashRc BashRcContent (Some mode_0o600),
         WriteFile ZshRc ZshRcContent (Some mode_0o600)] @ launch (userShell w)
        @ fst (on_exit w), snd (on_exit w)))"
  using assms by (simp add: main_def Let_def split: prod.splits)

lemma main_outcome:
  "snd (main w) = Exited 0 \<or> (valid_invocation (argv w) \<and> spawn_error w \<and> snd (main w) = Exited 2)
   \<or> (\<not> valid_invocation (argv w) \<and> snd (main w) = Exited (usage_status w))
   \<or> (valid_invocation (argv w) \<and> (\<exists>c\<in>set (failing w). snd (main w) = Threw c))"
  using on_exit_outcome [of w]
  by (auto simp: main_def Let_def usageAndExit_def throws_def split: prod.splits)

lemma main_spawn_throws:
  assumes "valid_invocation (argv w)" "\<not> throws w Mkdtemp" "\<not> throws w WriteLog"
    "\<not> throws w WriteBashRc" "\<not> throws w WriteZshRc" "throws w Spawn"
  shows "main w =
    ([WriteFile LogFile (Literal []) None, Console HelpMessage,
      WriteFile BashRc BashRcContent (Some mode_0o600),
      WriteFile ZshRc ZshRcContent (Some mode_0o600)] @ butlast (launch (userShell w)),
     Threw Spawn)"
  using assms by (simp add: main_def Let_def)

lemma launch_no_failed: "Console FailedToSpawn \<notin> set (launch sh)"
  by (simp add: launch_def Let_def)

lemma launch_shape:
  "\<exists>m args z. launch sh = [Console m, SpawnChild sh args z]"
  by (auto simp: launch_def Let_def)


lemma readonly_cwd_main:
  "main readonly_cwd_session =
     ([WriteFile LogFile (Literal []) None, Console HelpMessage,
       WriteFile BashRc BashRcContent (Some mode_0o600),
       WriteFile ZshRc ZshRcContent (Some mode_0o600),
       Console (UnsupportedShellWarning (js ''/bin/sh'')),
       SpawnChild (js ''/bin/sh'') [Flag (js ''-i'')] False,
       Console (ShellExited (Some 0) None)], Threw MkdirOut)"
proof -
  let ?w = readonly_cwd_session
  have l: "log_text ?w = log_text saved_session"
    by (simp add: readonly_cwd_session_def)
  have e: "entries_of (log_text ?w) \<noteq> []"
    by (simp add: l saved_session_entries)
  have v: "valid_invocation (argv ?w)"
    by (simp add: valid_invocation_def readonly_cwd_session_def saved_session_def)
  have t: "\<not> throws ?w Mkdtemp" "\<not> throws ?w WriteLog" "\<not> throws ?w WriteBashRc"
    "\<not> throws ?w WriteZshRc" "\<not> throws ?w Spawn"
    by (simp_all add: throws_def readonly_cwd_session_def saved_session_def)
  have s: "\<not> spawn_error ?w"
    by (simp add: readonly_cwd_session_def saved_session_def)
  have u: "userShell ?w = js ''/bin/sh''"
    by (simp add: userShell_def readonly_cwd_session_def saved_session_def js_def)
  have o: "on_exit ?w = ([Console (ShellExited (Some 0) None)], Threw MkdirOut)"
    using e by (simp add: on_exit_def Let_def throws_def)
      (simp add: readonly_cwd_session_def saved_session_def)
  show ?thesis
    using main_valid [OF v t] s by (simp add: u o launch_sh)
qed

section \<open>The log parser and the filter\<close>

text \<open>
  Claim C3, as stated, fails: the code trims the log at both ends, not only at its end.
  On a log that starts with a space the parser of the claim, which trims trailing
  whitespace only, splits the line at that leading space and gives an empty timestamp,
  while the code has removed the space and finds no space in the line.
\<close>

theorem parse_trailing_trim_counterexample:
  "parse_entries (js '' a'') = [\<lparr>ts = None, cmd = js ''a''\<rparr>]
   \<and> parseLog_spec (js '' a'') = [\<lparr>ts = Some [], cmd = js ''a''\<rparr>]
   \<and> parse_entries (js '' a'') \<noteq> parseLog_spec (js '' a'')"
  by (simp add: parse_entries_def parseLog_spec_def raw_lines_def trim_def trimEnd_spec_def
      is_white_def js_def parse_line_def slice_def slice_from_def push_unit_def)

text \<open>
  Claim C3, amended. Parsing is total: for every log text, after trimming whitespace at
  both ends and discarding empty lines, each remaining line yields exactly one entry. The
  line is split at its first space into the timestamp (the prefix) and the command text
  (the remainder, verbatim); a line without a space yields an entry with a null timestamp
  and the whole line as command text. Trimming removes a run of whitespace at the start
  and one at the end, and leaves a text that neither starts nor ends with whitespace; the
  code's parser is the claim's parser applied to the log without its leading whitespace.
\<close>

theorem parse_entries_total:
  "parse_entries log = map parse_line (filter (\<lambda>l. l \<noteq> []) (split_lines (trim log)))
   \<and> parse_entries log = parseLog_spec (dropWhile is_white log)
   \<and> length (parse_entries log) = length (raw_lines log)
   \<and> (i < length (raw_lines log) \<longrightarrow> parse_entries log ! i = parse_line (raw_lines log ! i))
   \<and> log = takeWhile is_white log @ trim log
        @ rev (takeWhile is_white (rev (dropWhile is_white log)))
   \<and> (trim log \<noteq> [] \<longrightarrow> \<not> is_white (hd (trim log)) \<and> \<not> is_white (last (trim log)))
   \<and> (0x20 \<notin> set l \<longrightarrow> parse_line l = \<lparr>ts = None, cmd = l\<rparr>)
   \<and> (0x20 \<notin> set a \<longrightarrow> parse_line (a @ 0x20 # b) = \<lparr>ts = Some a, cmd = b\<rparr>)"
proof -
  have 1: "parse_entries log = map parse_line (filter (\<lambda>l. l \<noteq> []) (split_lines (trim log)))"
    by (simp add: parse_entries_def raw_lines_def)
  have 0: "parse_entries log = parseLog_spec (dropWhile is_white log)"
    by (simp add: parse_entries_def parseLog_spec_def raw_lines_def trim_def trimEnd_spec_def)
  have 2: "length (parse_entries log) = length (raw_lines log)"
    by (simp add: parse_entries_def)
  have 3: "i < length (raw_lines log) \<longrightarrow> parse_entries log ! i = parse_line (raw_lines log ! i)"
    by (simp add: parse_entries_def)
  show ?thesis
    using 0 1 2 3 trim_decompose [of log] trim_ends [of log] parse_line_nospace [of l]
      parse_line_split [of a b]
    by blast
qed

theorem parse_entries_total_witness:
  "parse_entries (js '' T1 ls -l\<newline>pwd '') =
     [\<lparr>ts = Some (js ''T1''), cmd = js ''ls -l''\<rparr>, \<lparr>ts = None, cmd = js ''pwd''\<rparr>]
   \<and> trim (js '' T1 ls -l\<newline>pwd '') = js ''T1 ls -l\<newline>pwd''
   \<and> \<not> is_white (hd (trim (js '' T1 ls -l\<newline>pwd '')))
   \<and> 0x20 \<notin> set (js ''pwd'') \<and> parse_line (js ''pwd'') = \<lparr>ts = None, cmd = js ''pwd''\<rparr>
   \<and> 0x20 \<notin> set (js ''T1'')
   \<and> parse_line (js ''T1'' @ 0x20 # js ''ls -l'') = \<lparr>ts = Some (js ''T1''), cmd = js ''ls -l''\<rparr>"
proof -
  have t: "trim (js '' T1 ls -l\<newline>pwd '') = js ''T1 ls -l\<newline>pwd''"
    by (simp add: trim_def is_white_def js_def)
  have s: "filter (\<lambda>l. l \<noteq> []) (split_lines (js ''T1 ls -l\<newline>pwd''))
      = [js ''T1'' @ 0x20 # js ''ls -l'', js ''pwd'']"
    by (simp add: js_def push_unit_def)
  have n: "0x20 \<notin> set (js ''pwd'')" "0x20 \<notin> set (js ''T1'')"
    by (simp_all add: js_def)
  have ne: "trim (js '' T1 ls -l\<newline>pwd '') \<noteq> []"
    by (simp add: t) (simp add: js_def)
  show ?thesis
    using n ne parse_entries_total
      [where log = "js '' T1 ls -l\<newline>pwd ''" and l = "js ''pwd''" and a = "js ''T1''"
         and b = "js ''ls -l''" and i = 0]
    by (simp add: t s)
qed

text \<open>
  Claim C4, as stated, fails: the filter also discards an entry whose command text is
  empty, and the empty text does not begin with \<^verbatim>\<open>shell2node\<close>. In the log below
  the first line parses into such an entry.
\<close>

theorem filter_exactly_control_counterexample:
  "\<lparr>ts = Some (js ''T''), cmd = []\<rparr> \<in> set (parse_entries log_blank_command)
   \<and> \<not> startsWith (cmd \<lparr>ts = Some (js ''T''), cmd = []\<rparr>) (js ''shell2node'')
   \<and> \<lparr>ts = Some (js ''T''), cmd = []\<rparr> \<notin> set (entries_of log_blank_command)"
  by (simp add: log_blank_command_def entries_of_def parse_entries_def raw_lines_def trim_def
      is_white_def js_def parse_line_def slice_def slice_from_def push_unit_def keep_def
      startsWith_def)

text \<open>
  Claim C4, amended. After parsing, exactly those entries are discarded whose command
  text is empty or begins with \<^verbatim>\<open>shell2node\<close> (a prefix match: whatever follows the
  name, the entry goes), and the retained entries keep their relative order.
\<close>

theorem filter_discards_control_and_empty:
  "(e \<in> set (parse_entries log) \<longrightarrow>
      (e \<notin> set (entries_of log) \<longleftrightarrow> cmd e = [] \<or> prefix (js ''shell2node'') (cmd e)))
   \<and> \<not> keep \<lparr>ts = t, cmd = js ''shell2node'' @ rest\<rparr>
   \<and> subseq (entries_of log) (parse_entries log)
   \<and> entries_of log
       = filter (\<lambda>e. cmd e \<noteq> [] \<and> \<not> prefix (js ''shell2node'') (cmd e)) (parse_entries log)"
proof -
  have a: "e \<in> set (parse_entries log) \<longrightarrow>
      (e \<notin> set (entries_of log) \<longleftrightarrow> cmd e = [] \<or> prefix (js ''shell2node'') (cmd e))"
    by (auto simp: entries_of_def keep_iff)
  have b: "\<not> keep \<lparr>ts = t, cmd = js ''shell2node'' @ rest\<rparr>"
    by (simp add: keep_iff)
  have c: "subseq (entries_of log) (parse_entries log)"
    by (simp add: entries_of_def)
  have d: "entries_of log
       = filter (\<lambda>e. cmd e \<noteq> [] \<and> \<not> prefix (js ''shell2node'') (cmd e)) (parse_entries log)"
    unfolding entries_of_def by (rule filter_cong) (simp_all add: keep_iff)
  show ?thesis using a b c d by blast
qed

theorem filter_discards_control_and_empty_witness:
  "\<lparr>ts = Some (js ''T''), cmd = js ''shell2nodex''\<rparr> \<in> set (parse_entries log_blank_command)
   \<and> \<lparr>ts = Some (js ''T''), cmd = js ''shell2nodex''\<rparr> \<notin> set (entries_of log_blank_command)
   \<and> prefix (js ''shell2node'') (js ''shell2nodex'')
   \<and> entries_of log_blank_command = [\<lparr>ts = Some (js ''T''), cmd = js ''ls''\<rparr>]"
proof -
  have p: "parse_entries log_blank_command =
     [\<lparr>ts = Some (js ''T''), cmd = []\<rparr>, \<lparr>ts = Some (js ''T''), cmd = js ''ls''\<rparr>,
      \<lparr>ts = Some (js ''T''), cmd = js ''shell2nodex''\<rparr>]"
    by (simp add: log_blank_command_def parse_entries_def raw_lines_def trim_def
      is_white_def js_def parse_line_def slice_def slice_from_def push_unit_def)
  have q: "prefix (js ''shell2node'') (js ''shell2nodex'')"
    by (simp add: js_def)
  show ?thesis
    using filter_discards_control_and_empty
      [of "\<lparr>ts = Some (js ''T''), cmd = js ''shell2nodex''\<rparr>" log_blank_command None "[]"]
    by (simp add: p q) (simp add: js_def)
qed

text \<open>
  Claim C10, as stated, fails: in the log below the last line is a timestamp followed
  by a space and nothing else, but \<^verbatim>\<open>trim\<close> takes the space away before the log is
  split, so the line reaches the parser without a space. Its entry has a null timestamp
  and the timestamp as command text; the filter keeps it and the replay script invokes
  it.
\<close>

theorem empty_command_last_line_counterexample:
  "text_lines log_blank_last = [js ''T1 ls'', js ''T2'' @ [0x20], []]
   \<and> raw_lines log_blank_last = [js ''T1 ls'', js ''T2'']
   \<and> entries_of log_blank_last
       = [\<lparr>ts = Some (js ''T1''), cmd = js ''ls''\<rparr>, \<lparr>ts = None, cmd = js ''T2''\<rparr>]
   \<and> script_invocations (replay_lines (js ''D'') (entries_of log_blank_last))
       = [js ''ls'', js ''T2'']"
proof -
  have t: "text_lines log_blank_last = [js ''T1 ls'', js ''T2'' @ [0x20], []]"
    by (simp add: log_blank_last_def js_def push_unit_def)
  have r: "raw_lines log_blank_last = [js ''T1 ls'', js ''T2'']"
    by (simp add: log_blank_last_def raw_lines_def trim_def is_white_def js_def push_unit_def)
  have e: "entries_of log_blank_last
       = [\<lparr>ts = Some (js ''T1''), cmd = js ''ls''\<rparr>, \<lparr>ts = None, cmd = js ''T2''\<rparr>]"
    by (simp add: entries_of_def parse_entries_def r)
      (simp add: js_def parse_line_def slice_def slice_from_def keep_def startsWith_def)
  show ?thesis
    by (simp only: t r e script_invocations_replay) simp
qed

text \<open>
  Claim C10, amended. Take the lines of the log as the parser receives them: the log
  trimmed at both ends, split at its line breaks, empty lines dropped. For every such
  line whose first space is its final character, the parsed entry has empty command
  text and is discarded by the filter's truthiness guard, although the empty text does
  not begin with \<^verbatim>\<open>shell2node\<close>; no retained entry has empty command text, so neither
  the replay script nor the metadata carries one. The last of these lines is never of
  that shape, since the trimmed log does not end in a space.
\<close>

theorem empty_command_never_replayed:
  assumes "l \<in> set (raw_lines log)" and "l = t @ [0x20]" and "0x20 \<notin> set t"
  shows "parse_line l = \<lparr>ts = Some t, cmd = []\<rparr>
    \<and> parse_line l \<in> set (parse_entries log)
    \<and> \<not> startsWith (cmd (parse_line l)) (js ''shell2node'')
    \<and> \<not> keep (parse_line l)
    \<and> parse_line l \<notin> set (entries_of log)
    \<and> [] \<notin> set (map cmd (entries_of log))
    \<and> [] \<notin> set (script_invocations (replay_lines g (entries_of log)))
    \<and> [] \<notin> set (List.map_filter meta_cmd_of (meta_lines a r (entries_of log)))
    \<and> l \<noteq> last (raw_lines log)"
proof -
  have p: "parse_line l = \<lparr>ts = Some t, cmd = []\<rparr>"
    using parse_line_split [OF assms(3), of "[]"] assms(2) by simp
  have m: "parse_line l \<in> set (parse_entries log)"
    using assms(1) by (simp add: parse_entries_def)
  have s: "\<not> startsWith (cmd (parse_line l)) (js ''shell2node'')"
    by (simp add: p startsWith_def js_def)
  have k: "\<not> keep (parse_line l)"
    by (simp add: p keep_def)
  have n: "[] \<notin> set (map cmd (entries_of log))"
    by (force dest: entries_of_cmd_nonempty)
  have e: "parse_line l \<notin> set (entries_of log)"
    using k by (simp add: entries_of_def)
  have "raw_lines log \<noteq> []" using assms(1) by auto
  then have "last (last (raw_lines log)) \<noteq> 0x20"
    by (rule raw_lines_last)
  moreover have "last l = 0x20" using assms(2) by simp
  ultimately have z: "l \<noteq> last (raw_lines log)" by auto
  show ?thesis
    using p m s k e n z by (simp only: script_invocations_replay meta_cmd_meta_lines) simp
qed

theorem empty_command_never_replayed_witness:
  "js ''T'' @ [0x20] \<in> set (raw_lines log_blank_command)
   \<and> 0x20 \<notin> set (js ''T'')
   \<and> parse_line (js ''T'' @ [0x20]) = \<lparr>ts = Some (js ''T''), cmd = []\<rparr>
   \<and> parse_line (js ''T'' @ [0x20]) \<in> set (parse_entries log_blank_command)
   \<and> parse_line (js ''T'' @ [0x20]) \<notin> set (entries_of log_blank_command)"
proof -
  have r: "js ''T'' @ [0x20] \<in> set (raw_lines log_blank_command)"
    by (simp add: log_blank_command_def raw_lines_def trim_def is_white_def js_def push_unit_def)
  have h: "0x20 \<notin> set (js ''T'')" by (simp add: js_def)
  show ?thesis
    using r h empty_command_never_replayed
      [OF r refl h, where g = "[]" and a = "[]" and r = "[]"]
    by blast
qed

section \<open>The command text in the generated documents\<close>

text \<open>
  Claim C5. The command text of a retained entry is written into the replay script
  through \<^verbatim>\<open>JSON.stringify\<close> and into the metadata through the same encoding.
  Reading the literal back gives exactly the command text, whatever it contains, and
  the reader stops at the literal's own closing quote, so what follows the literal is
  untouched: the command text cannot change the structure around it. The literal holds
  no line feed and no carriage return. Read back line by line, the script invokes
  exactly the command texts of the entries, and the metadata carries exactly them.
\<close>

theorem command_text_roundtrip:
  "string_literal (JSON_stringify c @ rest) = Some (c, rest)
   \<and> 0x0A \<notin> set (JSON_stringify c) \<and> 0x0D \<notin> set (JSON_stringify c)
   \<and> run_line e = js ''  run('' @ JSON_stringify (cmd e) @ js '');''
   \<and> invocation_of (run_line e) = Some (cmd e)
   \<and> script_invocations (replay_lines g es) = map cmd es
   \<and> entry_lines e ! 2 = js ''      '' @ json_key ''cmd'' @ JSON_stringify (cmd e)
   \<and> meta_cmd_of (entry_lines e ! 2) = Some (cmd e)
   \<and> List.map_filter meta_cmd_of (meta_lines a r es) = map cmd es"
proof -
  have l: "entry_lines e ! 2 = js ''      '' @ json_key ''cmd'' @ JSON_stringify (cmd e)"
    by (simp add: entry_lines_def)
  show ?thesis
    using string_literal_stringify [of c rest] JSON_stringify_no_eol [of c]
      invocation_run_line [of e] script_invocations_replay [of g es]
      meta_cmd_entry [of "cmd e"] meta_cmd_meta_lines [of a r es]
    by (simp only: l) (simp add: run_line_def)
qed

text \<open>A command text with a double quote, a backtick, a line feed and a backslash.\<close>

theorem command_text_roundtrip_witness:
  "JSON_stringify [0x22, 0x60, 0x0A, 0x5C] = [0x22, 0x5C, 0x22, 0x60, 0x5C, 0x6E, 0x5C, 0x5C, 0x22]
   \<and> string_literal (JSON_stringify [0x22, 0x60, 0x0A, 0x5C] @ js '');'')
       = Some ([0x22, 0x60, 0x0A, 0x5C], js '');'')
   \<and> invocation_of (run_line \<lparr>ts = None, cmd = [0x22, 0x60, 0x0A, 0x5C]\<rparr>)
       = Some [0x22, 0x60, 0x0A, 0x5C]"
proof -
  have j: "JSON_stringify [0x22, 0x60, 0x0A, 0x5C]
      = [0x22, 0x5C, 0x22, 0x60, 0x5C, 0x6E, 0x5C, 0x5C, 0x22]"
    by (simp add: JSON_stringify_def quote_unit_def is_lead_def is_trail_def)
  note t = command_text_roundtrip
      [where c = "[0x22, 0x60, 0x0A, 0x5C]" and rest = "js '');''"
         and e = "\<lparr>ts = None, cmd = [0x22, 0x60, 0x0A, 0x5C]\<rparr>" and g = "[]" and es = "[]"
         and a = "[]" and r = "[]"]
  from t have a: "string_literal (JSON_stringify [0x22, 0x60, 0x0A, 0x5C] @ js '');'')
       = Some ([0x22, 0x60, 0x0A, 0x5C], js '');'')"
    by blast
  from t have b: "invocation_of (run_line \<lparr>ts = None, cmd = [0x22, 0x60, 0x0A, 0x5C]\<rparr>)
       = Some (cmd \<lparr>ts = None, cmd = [0x22, 0x60, 0x0A, 0x5C]\<rparr>)"
    by blast
  show ?thesis using j a b by simp
qed

section \<open>The replay script and the exit handler\<close>



text \<open>
  Claim C1, as stated, fails: the marker exists and two entries remain after filtering,
  but the working directory is read-only, the creation of the output directory throws,
  and the session leaves neither a metadata file nor a replay script.
\<close>

theorem artifact_iff_counterexample:
  "marker_exists readonly_cwd_session
   \<and> entries_of (log_text readonly_cwd_session) \<noteq> []
   \<and> written MetaFile (fst (main readonly_cwd_session)) = []
   \<and> written ReplayFile (fst (main readonly_cwd_session)) = []
   \<and> snd (main readonly_cwd_session) = Threw MkdirOut"
proof -
  have l: "log_text readonly_cwd_session = log_text saved_session"
    and m: "marker_exists readonly_cwd_session"
    by (simp_all add: readonly_cwd_session_def saved_session_def)
  have e: "entries_of (log_text readonly_cwd_session) \<noteq> []"
    by (simp add: l saved_session_entries)
  show ?thesis
    using m e by (simp add: readonly_cwd_main)
qed

text \<open>
  Claim C1, amended. When the child shell exits, the metadata file and the replay
  script are both written if and only if the save marker exists, the log can be read,
  at least one entry remains after filtering, and the calls that prepare and write the
  output (the working directory, the creation of the output directory when it is
  missing, the two writes) do not throw. When the marker is absent, or when the log is
  read and all parsed entries are filtered out, the handler writes neither file and
  exits with status 0.
\<close>

theorem artifact_iff_saved_and_written:
  "(written MetaFile (fst (on_exit w)) \<noteq> [] \<and> written ReplayFile (fst (on_exit w)) \<noteq> []
      \<longleftrightarrow> marker_exists w \<and> \<not> throws w ReadLog \<and> entries_of (log_text w) \<noteq> []
          \<and> \<not> throws w Cwd \<and> (outdir_exists w \<or> \<not> throws w MkdirOut)
          \<and> \<not> throws w WriteMeta \<and> \<not> throws w WriteReplay)
   \<and> (\<not> marker_exists w \<or> (\<not> throws w ReadLog \<and> entries_of (log_text w) = [])
      \<longrightarrow> written MetaFile (fst (on_exit w)) = [] \<and> written ReplayFile (fst (on_exit w)) = []
          \<and> snd (on_exit w) = Exited 0)
   \<and> (marker_exists w \<and> failing w = [] \<and> entries_of (log_text w) \<noteq> []
      \<longrightarrow> written MetaFile (fst (on_exit w))
            = [Literal (join_lines (meta_lines (captured_at w) (tmpRoot w)
                 (entries_of (log_text w))))]
          \<and> written ReplayFile (fst (on_exit w))
            = [Literal (join_lines (replay_lines (generated_at w) (entries_of (log_text w))))]
          \<and> snd (on_exit w) = Exited 0)"
proof -
  have b: "\<not> marker_exists w \<or> (\<not> throws w ReadLog \<and> entries_of (log_text w) = [])
      \<longrightarrow> written MetaFile (fst (on_exit w)) = [] \<and> written ReplayFile (fst (on_exit w)) = []
          \<and> snd (on_exit w) = Exited 0"
    by (cases "marker_exists w") (auto simp: on_exit_not_saved on_exit_no_entries)
  have c: "marker_exists w \<and> failing w = [] \<and> entries_of (log_text w) \<noteq> []
      \<longrightarrow> written MetaFile (fst (on_exit w))
            = [Literal (join_lines (meta_lines (captured_at w) (tmpRoot w)
                 (entries_of (log_text w))))]
          \<and> written ReplayFile (fst (on_exit w))
            = [Literal (join_lines (replay_lines (generated_at w) (entries_of (log_text w))))]
          \<and> snd (on_exit w) = Exited 0"
    by (simp add: on_exit_saved written_append)
  show ?thesis
    using on_exit_written [of w] b c by blast
qed

theorem artifact_iff_saved_and_written_witness:
  "marker_exists saved_session \<and> failing saved_session = []
   \<and> entries_of (log_text saved_session) \<noteq> []
   \<and> written ReplayFile (fst (on_exit saved_session))
       = [Literal (join_lines (replay_lines (generated_at saved_session)
            (entries_of (log_text saved_session))))]
   \<and> snd (on_exit saved_session) = Exited 0
   \<and> \<not> marker_exists (saved_session\<lparr>marker_exists := False\<rparr>)
   \<and> written MetaFile (fst (on_exit (saved_session\<lparr>marker_exists := False\<rparr>))) = []
   \<and> written ReplayFile (fst (on_exit (saved_session\<lparr>marker_exists := False\<rparr>))) = []
   \<and> snd (on_exit (saved_session\<lparr>marker_exists := False\<rparr>)) = Exited 0"
proof -
  have m: "marker_exists saved_session" and f: "failing saved_session = []"
    by (simp_all add: saved_session_def)
  have e: "entries_of (log_text saved_session) \<noteq> []"
    by (simp add: saved_session_entries)
  have n: "\<not> marker_exists (saved_session\<lparr>marker_exists := False\<rparr>)" by simp
  show ?thesis
    using m f e n artifact_iff_saved_and_written [of saved_session]
      artifact_iff_saved_and_written [of "saved_session\<lparr>marker_exists := False\<rparr>"]
    by blast
qed

section \<open>Exit statuses and failures\<close>

text \<open>
  Claim C6, as stated, fails: with a valid invocation and a shell that was spawned and
  has exited, the process still ends with a non-zero status when the output directory
  cannot be created, because the exception of the call is not caught.
\<close>

theorem exit_status_counterexample:
  "valid_invocation (argv readonly_cwd_session)
   \<and> \<not> spawn_error readonly_cwd_session
   \<and> snd (main readonly_cwd_session) = Threw MkdirOut
   \<and> exit_status (snd (main readonly_cwd_session)) = 1"
  by (simp add: readonly_cwd_main)
     (simp add: valid_invocation_def readonly_cwd_session_def saved_session_def)

text \<open>
  Claim C6, amended. The process exits with status 0 on every normal completion (saved
  with an artifact, saved with no entries, not saved), with status 2 when the child
  reports through its \<^verbatim>\<open>error\<close> event that it could not be spawned, and with the
  non-zero status of the usage helper on a missing or unknown subcommand. Besides these
  two cases it ends with a non-zero status only when one of its calls into the operating
  system throws, \<^verbatim>\<open>spawn\<close> among them: the exception is not caught, no message about
  the spawn is printed, and Node ends the process with status 1, which differs from 0
  and from 2.
\<close>

theorem exit_statuses:
  assumes "usage_status w \<noteq> 0"
  shows "(valid_invocation (argv w) \<and> failing w = [] \<and> \<not> spawn_error w
        \<longrightarrow> snd (main w) = Exited 0)
    \<and> (valid_invocation (argv w) \<and> \<not> throws w Mkdtemp \<and> \<not> throws w WriteLog
        \<and> \<not> throws w WriteBashRc \<and> \<not> throws w WriteZshRc \<and> \<not> throws w Spawn
        \<and> spawn_error w
        \<longrightarrow> snd (main w) = Exited 2 \<and> Console FailedToSpawn \<in> set (fst (main w)))
    \<and> (valid_invocation (argv w) \<and> \<not> throws w Mkdtemp \<and> \<not> throws w WriteLog
        \<and> \<not> throws w WriteBashRc \<and> \<not> throws w WriteZshRc \<and> throws w Spawn
        \<longrightarrow> snd (main w) = Threw Spawn \<and> exit_status (snd (main w)) = 1
            \<and> Console FailedToSpawn \<notin> set (fst (main w)))
    \<and> (\<not> valid_invocation (argv w)
        \<longrightarrow> snd (main w) = Exited (usage_status w) \<and> exit_status (snd (main w)) \<noteq> 0)
    \<and> (exit_status (snd (main w)) \<noteq> 0
        \<longrightarrow> \<not> valid_invocation (argv w) \<or> (spawn_error w \<and> snd (main w) = Exited 2)
            \<or> (\<exists>c\<in>set (failing w). snd (main w) = Threw c))
    \<and> exit_status (Threw c) = 1
    \<and> (valid_invocation (argv w) \<longleftrightarrow> (\<exists>rest. argv w = js ''capture'' # rest))"
proof -
  have a: "valid_invocation (argv w) \<and> failing w = [] \<and> \<not> spawn_error w
        \<longrightarrow> snd (main w) = Exited 0"
    using on_exit_outcome [of w] by (auto simp: main_valid throws_def)
  have b: "valid_invocation (argv w) \<and> \<not> throws w Mkdtemp \<and> \<not> throws w WriteLog
        \<and> \<not> throws w WriteBashRc \<and> \<not> throws w WriteZshRc \<and> \<not> throws w Spawn
        \<and> spawn_error w
        \<longrightarrow> snd (main w) = Exited 2 \<and> Console FailedToSpawn \<in> set (fst (main w))"
    by (simp add: main_valid)
  have n: "Console FailedToSpawn \<notin> set (butlast (launch (userShell w)))"
  proof
    assume "Console FailedToSpawn \<in> set (butlast (launch (userShell w)))"
    then have "Console FailedToSpawn \<in> set (launch (userShell w))"
      by (rule in_set_butlastD)
    then show False using launch_no_failed [of "userShell w"] by simp
  qed
  have s: "valid_invocation (argv w) \<and> \<not> throws w Mkdtemp \<and> \<not> throws w WriteLog
        \<and> \<not> throws w WriteBashRc \<and> \<not> throws w WriteZshRc \<and> throws w Spawn
        \<longrightarrow> snd (main w) = Threw Spawn \<and> exit_status (snd (main w)) = 1
            \<and> Console FailedToSpawn \<notin> set (fst (main w))"
    using n by (simp add: main_spawn_throws)
  have c: "\<not> valid_invocation (argv w)
        \<longrightarrow> snd (main w) = Exited (usage_status w) \<and> exit_status (snd (main w)) \<noteq> 0"
    using assms by (simp add: main_def usageAndExit_def)
  have d: "exit_status (snd (main w)) \<noteq> 0
        \<longrightarrow> \<not> valid_invocation (argv w) \<or> (spawn_error w \<and> snd (main w) = Exited 2)
            \<or> (\<exists>c\<in>set (failing w). snd (main w) = Threw c)"
    using main_outcome [of w] by auto
  have e: "valid_invocation (argv w) \<longleftrightarrow> (\<exists>rest. argv w = js ''capture'' # rest)"
    by (cases "argv w") (simp_all add: valid_invocation_def)
  have f: "exit_status (Threw c) = 1" by simp
  show ?thesis using a b s c d e f by blast
qed

theorem exit_statuses_witness:
  "usage_status saved_session \<noteq> 0
   \<and> valid_invocation (argv saved_session) \<and> failing saved_session = []
   \<and> \<not> spawn_error saved_session
   \<and> snd (main saved_session) = Exited 0
   \<and> snd (main (saved_session\<lparr>marker_exists := False\<rparr>)) = Exited 0
   \<and> snd (main (saved_session\<lparr>log_text := js ''T shell2node save''\<rparr>)) = Exited 0
   \<and> spawn_error (saved_session\<lparr>spawn_error := True\<rparr>)
   \<and> snd (main (saved_session\<lparr>spawn_error := True\<rparr>)) = Exited 2
   \<and> throws spawn_throws_session Spawn
   \<and> snd (main spawn_throws_session) = Threw Spawn
   \<and> exit_status (snd (main spawn_throws_session)) = 1
   \<and> \<not> valid_invocation (argv (saved_session\<lparr>argv := [js ''record'']\<rparr>))
   \<and> snd (main (saved_session\<lparr>argv := [js ''record'']\<rparr>)) = Exited 1
   \<and> \<not> valid_invocation (argv (saved_session\<lparr>argv := []\<rparr>))
   \<and> snd (main (saved_session\<lparr>argv := []\<rparr>)) = Exited 1"
proof -
  have u: "usage_status saved_session \<noteq> 0" and u1: "usage_status saved_session = 1"
    and v: "valid_invocation (argv saved_session)"
    and f: "failing saved_session = []"
    and s: "\<not> spawn_error saved_session"
    by (simp_all add: saved_session_def valid_invocation_def)
  have nt: "\<not> throws saved_session Mkdtemp" "\<not> throws saved_session WriteLog"
    "\<not> throws saved_session WriteBashRc" "\<not> throws saved_session WriteZshRc"
    "\<not> throws saved_session Spawn"
    by (simp_all add: throws_def f)
  have n: "\<not> valid_invocation [js ''record'']" "\<not> valid_invocation []"
    by (simp_all add: valid_invocation_def js_def)
  have st: "valid_invocation (argv spawn_throws_session)"
    "\<not> throws spawn_throws_session Mkdtemp" "\<not> throws spawn_throws_session WriteLog"
    "\<not> throws spawn_throws_session WriteBashRc" "\<not> throws spawn_throws_session WriteZshRc"
    "throws spawn_throws_session Spawn"
    and su: "usage_status spawn_throws_session \<noteq> 0"
    by (simp_all add: spawn_throws_session_def saved_session_def valid_invocation_def throws_def)
  let ?a = "saved_session\<lparr>marker_exists := False\<rparr>"
  let ?b = "saved_session\<lparr>log_text := js ''T shell2node save''\<rparr>"
  let ?c = "saved_session\<lparr>spawn_error := True\<rparr>"
  let ?d = "saved_session\<lparr>argv := [js ''record'']\<rparr>"
  let ?e = "saved_session\<lparr>argv := []\<rparr>"
  have ua: "usage_status ?a \<noteq> 0" and ub: "usage_status ?b \<noteq> 0"
    and uc: "usage_status ?c \<noteq> 0" and ud: "usage_status ?d \<noteq> 0"
    and ue: "usage_status ?e \<noteq> 0"
    using u by simp_all
  have 1: "snd (main saved_session) = Exited 0"
    using exit_statuses [OF u, THEN conjunct1] v f s by simp
  have 2: "snd (main ?a) = Exited 0"
    using exit_statuses [OF ua, THEN conjunct1] v f s by simp
  have 3: "snd (main ?b) = Exited 0"
    using exit_statuses [OF ub, THEN conjunct1] v f s by simp
  have 4: "snd (main ?c) = Exited 2"
    using exit_statuses [OF uc, THEN conjunct2, THEN conjunct1] v nt by (simp add: throws_def)
  have 7: "snd (main spawn_throws_session) = Threw Spawn
      \<and> exit_status (snd (main spawn_throws_session)) = 1"
    using exit_statuses [OF su, THEN conjunct2, THEN conjunct2, THEN conjunct1] st by simp
  have 5: "snd (main ?d) = Exited 1"
    using exit_statuses [OF ud, THEN conjunct2, THEN conjunct2, THEN conjunct2, THEN conjunct1]
      n u1 by simp
  have 6: "snd (main ?e) = Exited 1"
    using exit_statuses [OF ue, THEN conjunct2, THEN conjunct2, THEN conjunct2, THEN conjunct1]
      n u1 by simp
  have 8: "spawn_error ?c" "\<not> valid_invocation (argv ?d)" "\<not> valid_invocation (argv ?e)"
    using n by simp_all
  show ?thesis
    by (intro conjI) (rule u v f s 1 2 3 4 8 st(6) 7 [THEN conjunct1] 7 [THEN conjunct2] 5 6)+
qed

text \<open>
  Claim C7, as stated, fails: when the marker exists and the log cannot be read, the
  handler prints only the line about the shell's exit, not the message about no
  recorded commands, and does not reach an exit with status 0.
\<close>

theorem unreadable_log_counterexample:
  "marker_exists unreadable_log_session \<and> throws unreadable_log_session ReadLog
   \<and> on_exit unreadable_log_session = ([Console (ShellExited (Some 0) None)], Threw ReadLog)
   \<and> Console NoRecordedCommands \<notin> set (fst (on_exit unreadable_log_session))
   \<and> snd (on_exit unreadable_log_session) \<noteq> Exited 0
   \<and> exit_status (snd (on_exit unreadable_log_session)) \<noteq> 0"
proof -
  have m: "marker_exists unreadable_log_session" "throws unreadable_log_session ReadLog"
    by (simp_all add: throws_def unreadable_log_session_def saved_session_def)
  show ?thesis
    using m by (simp add: on_exit_unreadable [OF m])
      (simp add: unreadable_log_session_def saved_session_def)
qed

text \<open>
  Claim C7, amended. If the log file cannot be read when the child shell has exited and
  the save marker exists, the read throws and nothing catches the exception: the handler
  stops after the line about the shell's exit, prints no message about missing commands,
  writes no file, and the process ends on the uncaught exception with a non-zero status.
\<close>

theorem unreadable_log_is_fatal:
  assumes "marker_exists w" and "throws w ReadLog"
  shows "on_exit w = ([Console (ShellExited (child_code w) (child_signal w))], Threw ReadLog)
    \<and> Console NoRecordedCommands \<notin> set (fst (on_exit w))
    \<and> written MetaFile (fst (on_exit w)) = [] \<and> written ReplayFile (fst (on_exit w)) = []
    \<and> exit_status (snd (on_exit w)) = 1
    \<and> ReadLog \<in> set (failing w)"
  using assms by (simp add: on_exit_unreadable) (simp add: throws_def)

theorem unreadable_log_is_fatal_witness:
  "marker_exists unreadable_log_session \<and> throws unreadable_log_session ReadLog
   \<and> snd (on_exit unreadable_log_session) = Threw ReadLog
   \<and> exit_status (snd (on_exit unreadable_log_session)) = 1"
proof -
  have m: "marker_exists unreadable_log_session" "throws unreadable_log_session ReadLog"
    by (simp_all add: throws_def unreadable_log_session_def saved_session_def)
  show ?thesis
    using m unreadable_log_is_fatal [OF m] by simp
qed

section \<open>Spawning the shell and creating the workspace\<close>

text \<open>
  Claim C8, as stated, fails: for \<^verbatim>\<open>/bin/sh\<close>, whose base name holds neither
  \<^verbatim>\<open>zsh\<close> nor \<^verbatim>\<open>bash\<close>, the script prints the warning and spawns the shell with
  the single argument \<^verbatim>\<open>-i\<close>: no generated rc file is attached, neither by
  \<^verbatim>\<open>--rcfile\<close> nor through \<^verbatim>\<open>ZDOTDIR\<close>.
\<close>

theorem unknown_shell_counterexample:
  "\<not> js_includes (toLowerCase (basename (js ''/bin/sh''))) (js ''zsh'')
   \<and> \<not> js_includes (toLowerCase (basename (js ''/bin/sh''))) (js ''bash'')
   \<and> launch (js ''/bin/sh'')
       = [Console (UnsupportedShellWarning (js ''/bin/sh'')),
          SpawnChild (js ''/bin/sh'') [Flag (js ''-i'')] False]
   \<and> PathOf BashRc \<notin> set [Flag (js ''-i'')]"
  by (simp add: launch_sh) (simp add: basename_def toLowerCase_def js_def startsWith_def)

text \<open>
  Claim C8, amended. The shell variant is detected by a case-insensitive substring match
  on the base name of the shell path: \<^verbatim>\<open>zsh\<close> first, then \<^verbatim>\<open>bash\<close>. For every
  shell path whose base name matches neither, the script prints a warning and spawns the
  shell as it is: with the generated bash rc file (\<^verbatim>\<open>--rcfile\<close>) only when the whole
  path, compared case-sensitively, contains \<^verbatim>\<open>bash\<close>, and otherwise with
  \<^verbatim>\<open>-i\<close> alone and no generated rc file.
\<close>

theorem unknown_shell_fallback:
  "(sublist (js ''zsh'') (toLowerCase (basename sh))
      \<longrightarrow> launch sh = [Console DetectedZsh, SpawnChild sh [Flag (js ''-i'')] True])
   \<and> (\<not> sublist (js ''zsh'') (toLowerCase (basename sh))
       \<and> sublist (js ''bash'') (toLowerCase (basename sh))
      \<longrightarrow> launch sh = [Console DetectedBash,
            SpawnChild sh [Flag (js ''--rcfile''), PathOf BashRc, Flag (js ''-i'')] False])
   \<and> (\<not> sublist (js ''zsh'') (toLowerCase (basename sh))
       \<and> \<not> sublist (js ''bash'') (toLowerCase (basename sh))
      \<longrightarrow> launch sh = [Console (UnsupportedShellWarning sh),
            SpawnChild sh
              (if sublist (js ''bash'') sh
               then [Flag (js ''--rcfile''), PathOf BashRc, Flag (js ''-i'')]
               else [Flag (js ''-i'')])
              False])"
  by (simp add: launch_def Let_def js_includes_sublist)

theorem unknown_shell_fallback_witness:
  "\<not> sublist (js ''zsh'') (toLowerCase (basename (js ''/usr/bin/fish'')))
   \<and> \<not> sublist (js ''bash'') (toLowerCase (basename (js ''/usr/bin/fish'')))
   \<and> launch (js ''/usr/bin/fish'')
       = [Console (UnsupportedShellWarning (js ''/usr/bin/fish'')),
          SpawnChild (js ''/usr/bin/fish'') [Flag (js ''-i'')] False]
   \<and> \<not> sublist (js ''bash'') (toLowerCase (basename (js ''/opt/bash-kit/fish'')))
   \<and> launch (js ''/opt/bash-kit/fish'')
       = [Console (UnsupportedShellWarning (js ''/opt/bash-kit/fish'')),
          SpawnChild (js ''/opt/bash-kit/fish'')
            [Flag (js ''--rcfile''), PathOf BashRc, Flag (js ''-i'')] False]
   \<and> sublist (js ''zsh'') (toLowerCase (basename (js ''/usr/local/bin/Zsh'')))
   \<and> launch (js ''/usr/local/bin/Zsh'')
       = [Console DetectedZsh, SpawnChild (js ''/usr/local/bin/Zsh'') [Flag (js ''-i'')] True]"
proof -
  have b: "toLowerCase (basename (js ''/usr/bin/fish'')) = js ''fish''"
    "toLowerCase (basename (js ''/opt/bash-kit/fish'')) = js ''fish''"
    "toLowerCase (basename (js ''/usr/local/bin/Zsh'')) = js ''zsh''"
    by (simp_all add: basename_def toLowerCase_def js_def)
  have n: "\<not> sublist (js ''zsh'') (js ''fish'')" "\<not> sublist (js ''bash'') (js ''fish'')"
    "\<not> sublist (js ''bash'') (js ''/usr/bin/fish'')"
    "sublist (js ''bash'') (js ''/opt/bash-kit/fish'')"
    "sublist (js ''zsh'') (js ''zsh'')"
    by (simp_all add: js_includes_sublist [symmetric] js_def startsWith_def)
  show ?thesis
    using unknown_shell_fallback [of "js ''/usr/bin/fish''"]
      unknown_shell_fallback [of "js ''/opt/bash-kit/fish''"]
      unknown_shell_fallback [of "js ''/usr/local/bin/Zsh''"]
    by (simp add: b n)
qed

text \<open>
  Claim C9 does not hold of the code. The log file is created by
  \<^verbatim>\<open>fs.writeFileSync(logFile, '', 'utf8')\<close>, a call without a mode, while the two rc
  files are written with mode \<^verbatim>\<open>0o600\<close>. Under the umask \<^verbatim>\<open>0o022\<close> the log file
  gets mode \<^verbatim>\<open>0o644\<close>, with the read bits of group and others, and the rc files get
  \<^verbatim>\<open>0o600\<close>.
\<close>

theorem log_file_mode:
  "requested_modes LogFile (fst (main saved_session)) = [None]
   \<and> requested_modes BashRc (fst (main saved_session)) = [Some mode_0o600]
   \<and> requested_modes ZshRc (fst (main saved_session)) = [Some mode_0o600]
   \<and> created_mode None umask_0o022 = mode_0o644
   \<and> created_mode (Some mode_0o600) umask_0o022 = mode_0o600
   \<and> mode_0o644 \<noteq> mode_0o600"
proof -
  let ?w = saved_session
  have v: "valid_invocation (argv ?w)"
    by (simp add: valid_invocation_def saved_session_def)
  have t: "\<not> throws ?w Mkdtemp" "\<not> throws ?w WriteLog" "\<not> throws ?w WriteBashRc"
    "\<not> throws ?w WriteZshRc" "\<not> throws ?w Spawn"
    by (simp_all add: throws_def saved_session_def)
  have s: "\<not> spawn_error ?w" and f: "failing ?w = []" and m: "marker_exists ?w"
    by (simp_all add: saved_session_def)
  have u: "userShell ?w = js ''/bin/sh''"
    by (simp add: userShell_def saved_session_def js_def)
  have e: "entries_of (log_text ?w) \<noteq> []"
    by (simp add: saved_session_entries)
  have a: "requested_modes LogFile (fst (main ?w)) = [None]
      \<and> requested_modes BashRc (fst (main ?w)) = [Some mode_0o600]
      \<and> requested_modes ZshRc (fst (main ?w)) = [Some mode_0o600]"
    using main_valid [OF v t] s
    by (simp add: u launch_sh on_exit_saved [OF m f e] requested_modes_append)
  have b: "created_mode None umask_0o022 = mode_0o644
      \<and> created_mode (Some mode_0o600) umask_0o022 = mode_0o600
      \<and> mode_0o644 \<noteq> mode_0o600"
    by (simp add: created_mode_def umask_0o022_def mode_0o644_def mode_0o600_def mode_0o666_def)
  show ?thesis using a b by blast
qed

end
